theory Spec2Isabelle
  imports Main
begin

section \<open>Shared data: errors and cleaned form data\<close>

text \<open>
  Exceptions of the Python code are values. \<open>ValidationError\<close> carries the message of
  \<open>forms.ValidationError\<close> (and of a failed \<open>to_python\<close>), \<open>FieldDoesNotExist\<close> the
  path \<open>get_fields_from_path\<close> could not resolve, \<open>ValueError\<close> a list-filter parameter
  that is no identifier, \<open>TypeError\<close> a \<open>reduce\<close> over an empty list.

  The module \<open>model_filters/constants.py\<close> is not among the sources. The sentinel
  \<open>OR_SEPARATOR\<close> and the POST key \<open>FORM_SAVE_APPLY_DISCARD\<close> are therefore parameters
  of every function that reads them.
\<close>

datatype error =
  ValidationError string
  | FieldDoesNotExist string
  | ValueError string
  | TypeError

text \<open>
  One dictionary of a formset's \<open>cleaned_data\<close>: every key may be missing
  (\<open>dict.get\<close> then answers \<open>None\<close>, or the given default).
\<close>

record cleaned_data =
  cd_field :: "string option"
  cd_operator :: "string option"
  cd_value :: "string option"
  cd_DELETE :: "bool option"

section \<open>Clause sequence validation (forms/inline.py)\<close>

text \<open>\<open>not data.get("DELETE", False)\<close>\<close>

definition not_deleted :: "cleaned_data \<Rightarrow> bool" where
  "not_deleted d = (case cd_DELETE d of None \<Rightarrow> True | Some b \<Rightarrow> \<not> b)"

text \<open>The \<open>for\<close> loop of \<open>clean_field_filters\<close>, with its flag \<open>last_filter_was_or\<close>.\<close>

fun consecutive_loop :: "string \<Rightarrow> cleaned_data list \<Rightarrow> bool \<Rightarrow> error + unit" where
  "consecutive_loop OR_SEPARATOR [] last_filter_was_or = Inr ()"
| "consecutive_loop OR_SEPARATOR (field_filter # rest) last_filter_was_or =
     (if cd_field field_filter = Some OR_SEPARATOR then
        (if last_filter_was_or
         then Inl (ValidationError ''Cannot have consecutive OR separators.'')
         else consecutive_loop OR_SEPARATOR rest True)
      else consecutive_loop OR_SEPARATOR rest False)"

definition clean_field_filters :: "string \<Rightarrow> cleaned_data list \<Rightarrow> error + unit" where
  "clean_field_filters OR_SEPARATOR cleaned =
     (let filters = filter not_deleted cleaned in
      if length filters = 0
      then Inl (ValidationError ''At least one field filter is required.'')
      else if cd_field (hd filters) = Some OR_SEPARATOR
      then Inl (ValidationError ''First field filter cannot be an OR separator.'')
      else if cd_field (last filters) = Some OR_SEPARATOR
      then Inl (ValidationError ''Last field filter cannot be an OR separator.'')
      else consecutive_loop OR_SEPARATOR filters False)"

text \<open>
  The words of the specification: two adjacent remaining clauses are both the separator.
\<close>

definition adjacent_separators :: "string \<Rightarrow> cleaned_data list \<Rightarrow> bool" where
  "adjacent_separators OR_SEPARATOR filters =
     list_ex (\<lambda>(a, b). cd_field a = Some OR_SEPARATOR \<and> cd_field b = Some OR_SEPARATOR)
       (zip filters (tl filters))"

section \<open>Stored data (models/model_filter.py, models/field_filter.py)\<close>

text \<open>
  Modelled from the spec: \<open>constants.py\<close> is not among the sources. The
  specification names the no-value operators is-null, is-true, is-false and is-empty;
  their tokens are the ones the tests of \<open>utilities_tests.py\<close> and
  \<open>forms/field_filter_tests.py\<close> expect.
\<close>

definition IS_NULL :: string where "IS_NULL = ''isnull''"
definition IS_TRUE :: string where "IS_TRUE = ''istrue''"
definition IS_FALSE :: string where "IS_FALSE = ''isfalse''"
definition IS_EMPTY :: string where "IS_EMPTY = ''isempty''"

record content_type =
  ct_id :: nat
  app_label :: string
  model :: string

record user =
  user_id :: nat
  is_superuser :: bool

text \<open>A \<open>FieldFilter\<close> row; its text column \<open>value\<close> is \<open>raw_value\<close> here.\<close>

record field_filter =
  field :: string
  operator :: string
  raw_value :: string
  negate :: bool

text \<open>
  A \<open>ModelFilter\<close> row with its related \<open>fields\<close> (here \<open>mf_fields\<close>) in the order of
  \<open>fields.all()\<close> (the model orders them by id). \<open>pk\<close> is the column \<open>id\<close>; the
  timestamp \<open>created\<close> plays no part below and is left out.
\<close>

record model_filter =
  pk :: nat
  name :: "string option"
  description :: "string option"
  content_type :: content_type
  owner :: user
  ephemeral :: bool
  mf_fields :: "field_filter list"

text \<open>Django compares model instances by primary key.\<close>

definition same_user :: "user \<Rightarrow> user \<Rightarrow> bool" where
  "same_user a b = (user_id a = user_id b)"

definition same_content_type :: "content_type \<Rightarrow> content_type \<Rightarrow> bool" where
  "same_content_type a b = (ct_id a = ct_id b)"

section \<open>Query expressions\<close>

text \<open>
  The operand of a lookup: \<open>None\<close>, a string, a boolean, or whatever typed value a
  field's \<open>to_python\<close> returns.
\<close>

datatype 'v pyvalue = PNone | PStr string | PBool bool | PObj 'v

text \<open>
  Django's \<open>Q\<close> objects, as far as the compiler uses them: the empty \<open>Q()\<close>, a single
  keyword lookup \<open>Q(key=value)\<close>, negation and the two connectors. \<open>Q._combine\<close>
  returns the other operand when one operand is empty, for \<open>&\<close> and for \<open>|\<close> alike;
  the flattening of nested nodes of one connector is not modelled.
\<close>

datatype 'v q =
  Q_empty
  | Q_leaf string "'v pyvalue"
  | Q_not "'v q"
  | Q_and "'v q" "'v q"
  | Q_or "'v q" "'v q"

fun is_empty :: "'v q \<Rightarrow> bool" where
  "is_empty Q_empty = True"
| "is_empty (Q_leaf key operand) = False"
| "is_empty (Q_not x) = False"
| "is_empty (Q_and x y) = False"
| "is_empty (Q_or x y) = False"

definition Q_combine :: "('v q \<Rightarrow> 'v q \<Rightarrow> 'v q) \<Rightarrow> 'v q \<Rightarrow> 'v q \<Rightarrow> 'v q" where
  "Q_combine conn self other =
     (if is_empty other then self
      else if is_empty self then other
      else conn self other)"

definition q_and :: "'v q \<Rightarrow> 'v q \<Rightarrow> 'v q" where
  "q_and = Q_combine Q_and"

definition q_or :: "'v q \<Rightarrow> 'v q \<Rightarrow> 'v q" where
  "q_or = Q_combine Q_or"

definition q_invert :: "'v q \<Rightarrow> 'v q" where
  "q_invert x = Q_not x"

text \<open>
  What the record store does with an expression on one row: \<open>holds key operand\<close> says
  whether the row satisfies one lookup. The empty \<open>Q()\<close> filters nothing out.
\<close>

fun matches :: "(string \<Rightarrow> 'v pyvalue \<Rightarrow> bool) \<Rightarrow> 'v q \<Rightarrow> bool" where
  "matches holds Q_empty = True"
| "matches holds (Q_leaf key operand) = holds key operand"
| "matches holds (Q_not x) = (\<not> matches holds x)"
| "matches holds (Q_and x y) = (matches holds x \<and> matches holds y)"
| "matches holds (Q_or x y) = (matches holds x \<or> matches holds y)"

text \<open>Python's \<open>functools.reduce\<close> without an initial value.\<close>

fun reduce :: "('a \<Rightarrow> 'a \<Rightarrow> 'a) \<Rightarrow> 'a list \<Rightarrow> error + 'a" where
  "reduce f [] = Inl TypeError"
| "reduce f (x # xs) = Inr (foldl f x xs)"

section \<open>The query compiler (utilities.py)\<close>

text \<open>
  The terminal field of a path, \<open>get_fields_from_path(model, path)[-1]\<close>, with the two
  methods the code calls. Both the lookup and \<open>to_python\<close> can raise; the model class
  is the one of the filter's content type and is part of the resolver.
\<close>

record 'v model_field =
  to_python :: "string \<Rightarrow> error + 'v pyvalue"
  get_internal_type :: string

type_synonym 'v resolver = "string \<Rightarrow> error + 'v model_field"

definition build_query_params ::
  "'v resolver \<Rightarrow> field_filter \<Rightarrow> error + (string \<times> 'v pyvalue)" where
  "build_query_params get_fields_from_path f =
     (if operator f = IS_NULL then Inr (field f, PNone)
      else if operator f = IS_EMPTY then Inr (field f, PStr [])
      else if operator f = IS_TRUE then Inr (field f, PBool True)
      else if operator f = IS_FALSE then Inr (field f, PBool False)
      else
        (case get_fields_from_path (field f) of
           Inl e \<Rightarrow> Inl e
         | Inr model_field \<Rightarrow>
             (case to_python model_field (raw_value f) of
                Inl e \<Rightarrow> Inl e
              | Inr v \<Rightarrow> Inr (field f @ ''__'' @ operator f, v))))"

text \<open>\<open>models.Q(**query_params)\<close> for the one-entry dictionary of \<open>build_query_params\<close>.\<close>

definition Q_kwargs :: "string \<times> 'v pyvalue \<Rightarrow> 'v q" where
  "Q_kwargs query_params = Q_leaf (fst query_params) (snd query_params)"

definition make_query_filter :: "'v resolver \<Rightarrow> field_filter \<Rightarrow> error + 'v q" where
  "make_query_filter get_fields_from_path f =
     (case build_query_params get_fields_from_path f of
        Inl e \<Rightarrow> Inl e
      | Inr query_params \<Rightarrow>
          Inr (if negate f
               then q_and Q_empty (q_invert (Q_kwargs query_params))
               else q_and Q_empty (Q_kwargs query_params)))"

text \<open>
  The loop of \<open>build_query_filter\<close> over \<open>query_to_and\<close> and \<open>queries_to_or\<close>; an
  exception of \<open>make_query_filter\<close> ends it.
\<close>

fun build_loop ::
  "'v resolver \<Rightarrow> string \<Rightarrow> field_filter list \<Rightarrow> 'v q \<Rightarrow> 'v q list
    \<Rightarrow> error + ('v q \<times> 'v q list)" where
  "build_loop gf OR_SEPARATOR [] query_to_and queries_to_or =
     Inr (query_to_and, queries_to_or)"
| "build_loop gf OR_SEPARATOR (f # rest) query_to_and queries_to_or =
     (if field f = OR_SEPARATOR
      then build_loop gf OR_SEPARATOR rest Q_empty (queries_to_or @ [query_to_and])
      else
        (case make_query_filter gf f of
           Inl e \<Rightarrow> Inl e
         | Inr c \<Rightarrow> build_loop gf OR_SEPARATOR rest (q_and query_to_and c) queries_to_or))"

definition build_query_filter ::
  "'v resolver \<Rightarrow> string \<Rightarrow> model_filter \<Rightarrow> error + 'v q" where
  "build_query_filter gf OR_SEPARATOR mf =
     (case build_loop gf OR_SEPARATOR (mf_fields mf) Q_empty [] of
        Inl e \<Rightarrow> Inl e
      | Inr (query_to_and, queries_to_or) \<Rightarrow>
          (if queries_to_or \<noteq> []
           then reduce q_or (queries_to_or @ [query_to_and])
           else Inr query_to_and))"

text \<open>
  The words of the specification: the clauses between separators form the AND-groups, a
  group is the conjunction of its conditions, the result the disjunction of the groups.
\<close>

fun split_groups :: "string \<Rightarrow> field_filter list \<Rightarrow> field_filter list list" where
  "split_groups OR_SEPARATOR [] = [[]]"
| "split_groups OR_SEPARATOR (f # rest) =
     (if field f = OR_SEPARATOR then [] # split_groups OR_SEPARATOR rest
      else (case split_groups OR_SEPARATOR rest of
              [] \<Rightarrow> [[f]]
            | g # gs \<Rightarrow> (f # g) # gs))"

definition and_all :: "'v q list \<Rightarrow> 'v q" where
  "and_all conditions = foldl q_and Q_empty conditions"

fun or_all :: "'v q list \<Rightarrow> 'v q" where
  "or_all [] = Q_empty"
| "or_all (x # xs) = foldl q_or x xs"

definition no_value_operator :: "string \<Rightarrow> bool" where
  "no_value_operator op =
     (op = IS_NULL \<or> op = IS_EMPTY \<or> op = IS_TRUE \<or> op = IS_FALSE)"

text \<open>A clause whose field resolves and whose value converts, where a value is used.\<close>

definition compilable :: "'v resolver \<Rightarrow> field_filter \<Rightarrow> bool" where
  "compilable gf f =
     (no_value_operator (operator f)
      \<or> (case gf (field f) of
            Inl e \<Rightarrow> False
          | Inr model_field \<Rightarrow> \<not> isl (to_python model_field (raw_value f))))"

text \<open>
  The cleaned data from which the formset saves the clause \<open>f\<close>: every key present,
  and the clause not marked for deletion.
\<close>

definition cleaned_of :: "field_filter \<Rightarrow> cleaned_data" where
  "cleaned_of f =
     \<lparr>cd_field = Some (field f), cd_operator = Some (operator f),
      cd_value = Some (raw_value f), cd_DELETE = Some False\<rparr>"

section \<open>Clause validation (forms/field_filter.py)\<close>

text \<open>
  What \<open>_clean_value\<close> reads and writes of a \<open>FieldFilterForm\<close>: the error lists by
  field name (\<open>self.errors\<close>) and the flag \<open>self.fields["value"].required\<close>.
\<close>

record form =
  errors :: "string \<rightharpoonup> string list"
  value_required :: bool

definition NO_VALUE_OPERATORS :: "string \<Rightarrow> string list" where
  "NO_VALUE_OPERATORS OR_SEPARATOR = [IS_NULL, IS_TRUE, IS_FALSE, IS_EMPTY, OR_SEPARATOR]"

text \<open>\<open>str(error)\<close>, or the joined messages of a \<open>ValidationError\<close>.\<close>

definition error_message :: "error \<Rightarrow> string" where
  "error_message e =
     (case e of
        ValidationError m \<Rightarrow> m
      | FieldDoesNotExist m \<Rightarrow> m
      | ValueError m \<Rightarrow> m
      | TypeError \<Rightarrow> [])"

definition add_error :: "form \<Rightarrow> string \<Rightarrow> string \<Rightarrow> form" where
  "add_error self key message =
     self\<lparr>errors := (errors self)
       (key \<mapsto> (case errors self key of None \<Rightarrow> [message] | Some es \<Rightarrow> es @ [message]))\<rparr>"

text \<open>
  \<open>FieldFilterForm._clean_value\<close>. It returns the cleaned value (\<open>None\<close> or a string)
  and the form as it leaves it; \<open>get_fields_from_path\<close> stands outside the
  \<open>try\<close> block and can raise.
\<close>

definition clean_value ::
  "string \<Rightarrow> 'v resolver \<Rightarrow> cleaned_data \<Rightarrow> form \<Rightarrow> error + (string option \<times> form)" where
  "clean_value OR_SEPARATOR get_fields_from_path cleaned self =
     (case cd_field cleaned of
        None \<Rightarrow> Inr (None, self)
      | Some field_path \<Rightarrow>
          if field_path = [] then Inr (None, self)
          else
            (case cd_operator cleaned of
               None \<Rightarrow> Inr (None, self)
             | Some op \<Rightarrow>
                 if op = [] then Inr (None, self)
                 else if field_path = OR_SEPARATOR \<or> op \<in> set (NO_VALUE_OPERATORS OR_SEPARATOR)
                 then Inr (Some [],
                           self\<lparr>errors := (errors self)(''value'' := None),
                                value_required := False\<rparr>)
                 else
                   (case cd_value cleaned of
                      None \<Rightarrow> Inr (None, self)
                    | Some v \<Rightarrow>
                        if v = [] then Inr (Some v, self)
                        else
                          (case get_fields_from_path field_path of
                             Inl e \<Rightarrow> Inl e
                           | Inr model_field \<Rightarrow>
                               (case to_python model_field v of
                                  Inl e \<Rightarrow>
                                    Inr (Some v,
                                         add_error self ''value''
                                           (''Value is not valid for field (''
                                            @ get_internal_type model_field @ ''): ''
                                            @ error_message e))
                                | Inr converted \<Rightarrow> Inr (Some v, self))))))"

section \<open>Settings and permissions (utilities.py)\<close>

text \<open>
  Modelled from the spec: \<open>constants.py\<close> is not among the sources. The names of the
  settings are those of \<open>acme/settings/test.py\<close> and of the tests'
  \<open>override_settings\<close>; the defaults are those of the specification's configuration
  surface (each owner-only toggle true, object-level permissions false).
\<close>

definition SETTING_MODEL_FILTERS_VIEW_OWNER_ONLY :: string where
  "SETTING_MODEL_FILTERS_VIEW_OWNER_ONLY = ''MODEL_FILTERS_VIEW_OWNER_ONLY''"
definition SETTING_MODEL_FILTERS_CHANGE_OWNER_ONLY :: string where
  "SETTING_MODEL_FILTERS_CHANGE_OWNER_ONLY = ''MODEL_FILTERS_CHANGE_OWNER_ONLY''"
definition SETTING_MODEL_FILTERS_DELETE_OWNER_ONLY :: string where
  "SETTING_MODEL_FILTERS_DELETE_OWNER_ONLY = ''MODEL_FILTERS_DELETE_OWNER_ONLY''"
definition SETTING_MODEL_FILTERS_USE_GUARDIAN :: string where
  "SETTING_MODEL_FILTERS_USE_GUARDIAN = ''MODEL_FILTERS_USE_GUARDIAN''"
definition DEFAULT_MODEL_FILTERS_VIEW_OWNER_ONLY :: bool where
  "DEFAULT_MODEL_FILTERS_VIEW_OWNER_ONLY = True"
definition DEFAULT_MODEL_FILTERS_CHANGE_OWNER_ONLY :: bool where
  "DEFAULT_MODEL_FILTERS_CHANGE_OWNER_ONLY = True"
definition DEFAULT_MODEL_FILTERS_DELETE_OWNER_ONLY :: bool where
  "DEFAULT_MODEL_FILTERS_DELETE_OWNER_ONLY = True"
definition DEFAULT_MODEL_FILTERS_USE_GUARDIAN :: bool where
  "DEFAULT_MODEL_FILTERS_USE_GUARDIAN = False"

text \<open>
  Django's settings object, as far as the code reads it: the boolean options by name,
  each possibly unset, and \<open>INSTALLED_APPS\<close>.
\<close>

record settings =
  options :: "string \<rightharpoonup> bool"
  INSTALLED_APPS :: "string list option"

text \<open>\<open>getattr(settings, setting, default)\<close>\<close>

definition getattr :: "settings \<Rightarrow> string \<Rightarrow> bool \<Rightarrow> bool" where
  "getattr st setting dflt = (case options st setting of None \<Rightarrow> dflt | Some b \<Rightarrow> b)"

text \<open>
  The permission service: \<open>user.has_perm(perm)\<close> for class-level permissions. The
  content type's model class is taken to exist, so that \<open>opts\<close> is the content type's
  own \<open>app_label\<close> and model name.
\<close>

type_synonym has_perm = "user \<Rightarrow> string \<Rightarrow> bool"

definition get_permission_codename :: "string \<Rightarrow> content_type \<Rightarrow> string" where
  "get_permission_codename action opts = action @ ''_'' @ model opts"

definition user_can_access_content_type :: "has_perm \<Rightarrow> user \<Rightarrow> content_type \<Rightarrow> bool" where
  "user_can_access_content_type has_perm u ct =
     (let opts = ct;
          has_view_perm = has_perm u (app_label opts @ ''.'' @ get_permission_codename ''view'' opts);
          has_change_perm =
            has_perm u (app_label opts @ ''.'' @ get_permission_codename ''change'' opts)
      in has_view_perm \<or> has_change_perm)"

definition user_has_permission ::
  "settings \<Rightarrow> has_perm \<Rightarrow> user \<Rightarrow> string \<Rightarrow> bool \<Rightarrow> model_filter option \<Rightarrow> bool option" where
  "user_has_permission st has_perm u setting dflt model_filter =
     (if is_superuser u then Some True
      else
        (case model_filter of
           None \<Rightarrow> Some True
         | Some mf \<Rightarrow>
             if \<not> user_can_access_content_type has_perm u (content_type mf) then Some False
             else if same_user u (owner mf) then Some True
             else if getattr st setting dflt then Some False
             else None))"

definition use_guardian :: "settings \<Rightarrow> bool" where
  "use_guardian st =
     (getattr st SETTING_MODEL_FILTERS_USE_GUARDIAN DEFAULT_MODEL_FILTERS_USE_GUARDIAN
      \<and> ''guardian'' \<in> set (case INSTALLED_APPS st of None \<Rightarrow> [] | Some apps \<Rightarrow> apps))"

definition view_owner_only :: "settings \<Rightarrow> bool" where
  "view_owner_only st =
     getattr st SETTING_MODEL_FILTERS_VIEW_OWNER_ONLY DEFAULT_MODEL_FILTERS_VIEW_OWNER_ONLY"

definition change_owner_only :: "settings \<Rightarrow> bool" where
  "change_owner_only st =
     getattr st SETTING_MODEL_FILTERS_CHANGE_OWNER_ONLY DEFAULT_MODEL_FILTERS_CHANGE_OWNER_ONLY"

section \<open>Access checks of the admin (admin/model_filter.py)\<close>

text \<open>
  \<open>super().has_view_permission(request, obj=obj)\<close> and its two siblings are Django's
  (or Guardian's) own checks: the permission service, a parameter here.
\<close>

datatype action = View | Change | Delete

type_synonym permission_service = "action \<Rightarrow> user \<Rightarrow> model_filter option \<Rightarrow> bool"

definition has_view_permission ::
  "settings \<Rightarrow> has_perm \<Rightarrow> permission_service \<Rightarrow> user \<Rightarrow> model_filter option \<Rightarrow> bool" where
  "has_view_permission st has_perm super u obj =
     (case user_has_permission st has_perm u SETTING_MODEL_FILTERS_VIEW_OWNER_ONLY
             DEFAULT_MODEL_FILTERS_VIEW_OWNER_ONLY obj of
        None \<Rightarrow> super View u obj
      | Some permission \<Rightarrow> permission)"

definition has_change_permission ::
  "settings \<Rightarrow> has_perm \<Rightarrow> permission_service \<Rightarrow> user \<Rightarrow> model_filter option \<Rightarrow> bool" where
  "has_change_permission st has_perm super u obj =
     (case user_has_permission st has_perm u SETTING_MODEL_FILTERS_CHANGE_OWNER_ONLY
             DEFAULT_MODEL_FILTERS_CHANGE_OWNER_ONLY obj of
        None \<Rightarrow> super Change u obj
      | Some permission \<Rightarrow> permission)"

definition has_delete_permission ::
  "settings \<Rightarrow> has_perm \<Rightarrow> permission_service \<Rightarrow> user \<Rightarrow> model_filter option \<Rightarrow> bool" where
  "has_delete_permission st has_perm super u obj =
     (case user_has_permission st has_perm u SETTING_MODEL_FILTERS_DELETE_OWNER_ONLY
             DEFAULT_MODEL_FILTERS_DELETE_OWNER_ONLY obj of
        None \<Rightarrow> super Delete u obj
      | Some permission \<Rightarrow> permission)"

text \<open>The three checks by action, and the owner-only toggle each of them reads.\<close>

fun has_permission ::
  "action \<Rightarrow> settings \<Rightarrow> has_perm \<Rightarrow> permission_service \<Rightarrow> user \<Rightarrow> model_filter option
    \<Rightarrow> bool" where
  "has_permission View = has_view_permission"
| "has_permission Change = has_change_permission"
| "has_permission Delete = has_delete_permission"

fun owner_only :: "action \<Rightarrow> settings \<Rightarrow> bool" where
  "owner_only View st =
     getattr st SETTING_MODEL_FILTERS_VIEW_OWNER_ONLY DEFAULT_MODEL_FILTERS_VIEW_OWNER_ONLY"
| "owner_only Change st =
     getattr st SETTING_MODEL_FILTERS_CHANGE_OWNER_ONLY DEFAULT_MODEL_FILTERS_CHANGE_OWNER_ONLY"
| "owner_only Delete st =
     getattr st SETTING_MODEL_FILTERS_DELETE_OWNER_ONLY DEFAULT_MODEL_FILTERS_DELETE_OWNER_ONLY"

section \<open>Visibility of stored filters (managers/model_filter.py)\<close>

text \<open>
  A queryset is the list of its rows. \<open>filter(owner=user)\<close> keeps the rows of that
  owner, \<open>|\<close> gives the rows of the table that either operand has, \<open>&\<close> the rows
  of the left operand that the right one has too.
\<close>

definition filter_owner :: "model_filter list \<Rightarrow> user \<Rightarrow> model_filter list" where
  "filter_owner queryset u = filter (\<lambda>f. same_user (owner f) u) queryset"

definition qs_or :: "model_filter list \<Rightarrow> model_filter list \<Rightarrow> model_filter list
    \<Rightarrow> model_filter list" where
  "qs_or table a b = filter (\<lambda>f. f \<in> set a \<or> f \<in> set b) table"

definition qs_and :: "model_filter list \<Rightarrow> model_filter list \<Rightarrow> model_filter list" where
  "qs_and a b = filter (\<lambda>f. f \<in> set b) a"

text \<open>
  The name \<open>get_objects_for_user\<close> of the module: \<open>None\<close> when Guardian cannot be
  imported, else Guardian's shortcut, which takes the user, the permission and the rows
  of the model.
\<close>

type_synonym objects_for_user = "user \<Rightarrow> string \<Rightarrow> model_filter list \<Rightarrow> model_filter list"

text \<open>
  Guardian's shortcut with its defaults \<open>with_superuser\<close> and
  \<open>accept_global_perms\<close>: a superuser and a user with the class-level permission get
  every row, anybody else the rows on which \<open>object_perm\<close> records an object-level
  grant.
\<close>

definition guardian_get_objects_for_user ::
  "has_perm \<Rightarrow> (user \<Rightarrow> string \<Rightarrow> model_filter \<Rightarrow> bool) \<Rightarrow> objects_for_user" where
  "guardian_get_objects_for_user has_perm object_perm u perm table =
     (if is_superuser u \<or> has_perm u (''model_filters.'' @ perm) then table
      else filter (object_perm u perm) table)"

text \<open>
  \<open>ModelFilterQuerySet.for_user\<close>; \<open>table\<close> is what the default manager of the model
  returns, \<open>self\<close> the queryset the method is called on.
\<close>

definition for_user ::
  "settings \<Rightarrow> has_perm \<Rightarrow> objects_for_user option \<Rightarrow> model_filter list
    \<Rightarrow> model_filter list \<Rightarrow> user \<Rightarrow> model_filter list" where
  "for_user st has_perm get_objects_for_user table self u =
     (let queryset = self;
          view_permission = ''view_modelfilter''
      in if view_owner_only st then filter_owner queryset u
         else
           (case (if use_guardian st then get_objects_for_user else None) of
              Some objects_for_user \<Rightarrow>
                (let base = table;
                     permissions =
                       qs_or table (filter_owner base u)
                         (objects_for_user u view_permission table)
                 in qs_and queryset permissions)
            | None \<Rightarrow>
                if \<not> has_perm u (''model_filters.'' @ view_permission)
                then filter_owner queryset u
                else queryset))"

text \<open>
  The words of the specification: the user holds view permission for a filter at class
  level, or at object level. An object-level grant counts where the object-level
  backend is in use: the setting is on, Guardian is installed and can be imported.
\<close>

definition holds_view_permission ::
  "settings \<Rightarrow> has_perm \<Rightarrow> objects_for_user option
    \<Rightarrow> (user \<Rightarrow> string \<Rightarrow> model_filter \<Rightarrow> bool) \<Rightarrow> user \<Rightarrow> model_filter \<Rightarrow> bool" where
  "holds_view_permission st has_perm get_objects_for_user object_perm u f =
     (has_perm u ''model_filters.view_modelfilter''
      \<or> (use_guardian st \<and> get_objects_for_user \<noteq> None
           \<and> object_perm u ''view_modelfilter'' f))"

section \<open>Applying a stored filter (admin/list_filters.py)\<close>

text \<open>
  A request, as far as the code reads and writes it: the user, the keys of the POST
  body, and the attribute \<open>model_filter_model_filter\<close> the list filter stores.
\<close>

record request =
  user :: user
  POST :: "string \<rightharpoonup> string"
  model_filter_model_filter :: "model_filter option"

text \<open>
  A \<open>ModelFilterListFilter\<close>: the value of its GET parameter (\<open>self.value()\<close>) and the
  content type of the listed model.
\<close>

record list_filter =
  param_value :: "string option"
  lf_content_type :: content_type

text \<open>
  What the code needs around it: the settings, the permission service, Guardian's
  shortcut if there is one, the conversion of the parameter to a primary key (which
  raises on a string that is no number), the field resolver of the listed model, the
  separator, and the record store's verdict on one row and one lookup.
\<close>

record ('v, 'row) environment =
  env_settings :: settings
  env_has_perm :: has_perm
  env_get_objects_for_user :: "objects_for_user option"
  env_to_pk :: "string \<Rightarrow> error + nat"
  env_get_fields_from_path :: "'v resolver"
  env_OR_SEPARATOR :: string
  env_holds :: "'row \<Rightarrow> string \<Rightarrow> 'v pyvalue \<Rightarrow> bool"

text \<open>\<open>.first()\<close> of a queryset.\<close>

definition first :: "'a list \<Rightarrow> 'a option" where
  "first xs = (case xs of [] \<Rightarrow> None | x # rest \<Rightarrow> Some x)"

text \<open>\<open>model_filter.delete()\<close> on the table of stored filters.\<close>

definition delete :: "model_filter \<Rightarrow> model_filter list \<Rightarrow> model_filter list" where
  "delete mf table = filter (\<lambda>f. pk f \<noteq> pk mf) table"

text \<open>
  \<open>ModelFilterListFilter.queryset\<close>. It returns the rows of the listing, the table of
  stored filters and the request as the call leaves them, or the exception that ends
  it.
\<close>

definition queryset ::
  "('v, 'row) environment \<Rightarrow> list_filter \<Rightarrow> model_filter list \<Rightarrow> request \<Rightarrow> 'row list
    \<Rightarrow> error + ('row list \<times> model_filter list \<times> request)" where
  "queryset env self table rq rows =
     (case param_value self of
        None \<Rightarrow> Inr (rows, table, rq)
      | Some v \<Rightarrow>
          if v = [] then Inr (rows, table, rq)
          else
            (case env_to_pk env v of
               Inl e \<Rightarrow> Inl e
             | Inr i \<Rightarrow>
                 (case first
                         (filter
                           (\<lambda>f. pk f = i
                              \<and> same_content_type (content_type f) (lf_content_type self))
                           (for_user (env_settings env) (env_has_perm env)
                              (env_get_objects_for_user env) table table (user rq))) of
                    None \<Rightarrow> Inr (rows, table, rq)
                  | Some model_filter \<Rightarrow>
                      (case build_query_filter (env_get_fields_from_path env)
                              (env_OR_SEPARATOR env) model_filter of
                         Inl e \<Rightarrow> Inl e
                       | Inr query \<Rightarrow>
                           (let filtered =
                                  remdups (filter (\<lambda>r. matches (env_holds env r) query) rows)
                            in if same_user (owner model_filter) (user rq)
                                  \<and> ephemeral model_filter
                               then Inr (filtered, delete model_filter table, rq)
                               else Inr (filtered, table,
                                         rq\<lparr>model_filter_model_filter :=
                                               Some model_filter\<rparr>))))))"

section \<open>Saving a filter (admin/model_filter.py, forms/model_filter.py)\<close>

text \<open>
  A bound and valid \<open>ModelFilterForm\<close>: the instance it edits and the cleaned values of
  its four fields.
\<close>

record model_filter_form =
  form_instance :: model_filter
  cleaned_name :: "string option"
  cleaned_description :: "string option"
  cleaned_content_type :: content_type
  cleaned_owner :: user

text \<open>
  \<open>super().save_form(request, form, change)\<close> is Django's
  \<open>form.save(commit=False)\<close>: the instance with the cleaned values of the form's
  fields written into it.
\<close>

definition form_save :: "model_filter_form \<Rightarrow> model_filter" where
  "form_save form =
     (form_instance form)\<lparr>name := cleaned_name form, description := cleaned_description form,
       content_type := cleaned_content_type form, owner := cleaned_owner form\<rparr>"

text \<open>
  What \<open>_update_content_type_choices\<close> and \<open>_update_owner_choices\<close> leave as the only
  valid choices of a form that edits a stored filter: the stored content type and the
  stored owner.
\<close>

definition pinned :: "model_filter \<Rightarrow> model_filter_form \<Rightarrow> bool" where
  "pinned stored form =
     (form_instance form = stored
      \<and> same_content_type (cleaned_content_type form) (content_type stored)
      \<and> same_user (cleaned_owner form) (owner stored))"

definition save_form :: "string \<Rightarrow> request \<Rightarrow> model_filter_form \<Rightarrow> bool \<Rightarrow> model_filter" where
  "save_form FORM_SAVE_APPLY_DISCARD rq form change =
     (let model_filter = form_save form;
          model_filter = model_filter\<lparr>owner := user rq\<rparr>;
          model_filter = model_filter\<lparr>ephemeral := (FORM_SAVE_APPLY_DISCARD \<in> dom (POST rq))\<rparr>
      in model_filter)"

section \<open>Example data\<close>

text \<open>
  A resolver for use in concrete evaluations, after the fields the tests of
  \<open>utilities_tests.py\<close> and \<open>forms/field_filter_tests.py\<close> name: three text fields,
  whose \<open>to_python\<close> keeps the string, and the integer field \<open>age\<close>, whose
  \<open>to_python\<close> accepts decimal digits and rejects anything else the way
  \<open>IntegerField\<close> rejects \<open>Road Runner\<close> in \<open>test_clean_value_bad_int_value\<close>.
\<close>

definition digits_to_int :: "string \<Rightarrow> int" where
  "digits_to_int s = foldl (\<lambda>n c. 10 * n + (of_char c - 48)) 0 s"

definition IntegerField_to_python :: "string \<Rightarrow> error + int pyvalue" where
  "IntegerField_to_python s =
     (if s \<noteq> [] \<and> list_all (\<lambda>c. c \<in> set ''0123456789'') s
      then Inr (PObj (digits_to_int s))
      else Inl (ValidationError (CHR 0x27 # s @ CHR 0x27 # '' value must be an integer.'')))"

definition example_fields :: "int resolver" where
  "example_fields path =
     (if path = ''name'' \<or> path = ''description'' \<or> path = ''code''
      then Inr \<lparr>to_python = (\<lambda>s. Inr (PStr s)), get_internal_type = ''CharField''\<rparr>
      else if path = ''age''
      then Inr \<lparr>to_python = IntegerField_to_python, get_internal_type = ''IntegerField''\<rparr>
      else Inl (FieldDoesNotExist path))"

definition example_clause :: "string \<Rightarrow> string \<Rightarrow> string \<Rightarrow> bool \<Rightarrow> field_filter" where
  "example_clause f op v n = \<lparr>field = f, operator = op, raw_value = v, negate = n\<rparr>"

definition example_filter :: "field_filter list \<Rightarrow> model_filter" where
  "example_filter fs =
     \<lparr>pk = 1, name = Some ''Test Filter'', description = None,
      content_type = \<lparr>ct_id = 7, app_label = ''core'', model = ''product''\<rparr>,
      owner = \<lparr>user_id = 1, is_superuser = False\<rparr>,
      ephemeral = False, mf_fields = fs\<rparr>"

text \<open>The condition a clause compiles to, the empty \<open>Q()\<close> standing in where it raises.\<close>

definition condition_of :: "'v resolver \<Rightarrow> field_filter \<Rightarrow> 'v q" where
  "condition_of gf f = (case make_query_filter gf f of Inl e \<Rightarrow> Q_empty | Inr c \<Rightarrow> c)"

text \<open>The lookup of a clause, a dummy standing in where \<open>build_query_params\<close> raises.\<close>

definition params_of :: "'v resolver \<Rightarrow> field_filter \<Rightarrow> string \<times> 'v pyvalue" where
  "params_of gf f = (case build_query_params gf f of Inl e \<Rightarrow> ([], PNone) | Inr p \<Rightarrow> p)"

text \<open>
  Users, a stored filter and settings for concrete evaluations: \<open>wile\<close> owns the
  filter, \<open>staff\<close> is another user without any permission on the filtered model, and
  \<open>root\<close> is a superuser.
\<close>

definition wile :: user where "wile = \<lparr>user_id = 1, is_superuser = False\<rparr>"
definition staff :: user where "staff = \<lparr>user_id = 2, is_superuser = False\<rparr>"
definition root :: user where "root = \<lparr>user_id = 3, is_superuser = True\<rparr>"

definition customer_type :: content_type where
  "customer_type = \<lparr>ct_id = 9, app_label = ''core'', model = ''customer''\<rparr>"

definition customer_filter :: model_filter where
  "customer_filter =
     \<lparr>pk = 5, name = Some ''Customer Filter'', description = None,
      content_type = customer_type, owner = wile, ephemeral = True,
      mf_fields = [example_clause ''name'' ''exact'' ''Wile E. Coyote'' False]\<rparr>"

definition open_settings :: settings where
  "open_settings =
     \<lparr>options = [''MODEL_FILTERS_VIEW_OWNER_ONLY'' \<mapsto> False,
                 ''MODEL_FILTERS_CHANGE_OWNER_ONLY'' \<mapsto> False,
                 ''MODEL_FILTERS_DELETE_OWNER_ONLY'' \<mapsto> False],
      INSTALLED_APPS = Some [''model_filters'']\<rparr>"

definition default_settings :: settings where
  "default_settings = \<lparr>options = Map.empty, INSTALLED_APPS = Some [''model_filters'']\<rparr>"

text \<open>A permission service that grants the permissions on filters, and no other.\<close>

definition filter_perms_only :: has_perm where
  "filter_perms_only u perm =
     (perm = ''model_filters.view_modelfilter'' \<or> perm = ''model_filters.change_modelfilter''
      \<or> perm = ''model_filters.delete_modelfilter'')"

definition customer_perms :: has_perm where
  "customer_perms u perm = (perm = ''core.view_customer'')"

text \<open>A permission service that grants every action on every filter to everybody.\<close>

definition grant_all :: permission_service where
  "grant_all a u obj = True"

text \<open>
  A second stored filter, owned by \<open>staff\<close>, settings with Guardian in use, and an
  object-level grant of \<open>view_modelfilter\<close> on the first filter to \<open>staff\<close>.
\<close>

definition staff_filter :: model_filter where
  "staff_filter =
     \<lparr>pk = 6, name = None, description = None, content_type = customer_type,
      owner = staff, ephemeral = False,
      mf_fields = [example_clause ''name'' ''isnull'' [] True]\<rparr>"

definition guardian_settings :: settings where
  "guardian_settings =
     \<lparr>options = [''MODEL_FILTERS_VIEW_OWNER_ONLY'' \<mapsto> False,
                 ''MODEL_FILTERS_USE_GUARDIAN'' \<mapsto> True],
      INSTALLED_APPS = Some [''model_filters'', ''guardian'']\<rparr>"

definition staff_grant :: "user \<Rightarrow> string \<Rightarrow> model_filter \<Rightarrow> bool" where
  "staff_grant u perm f = (user_id u = 2 \<and> perm = ''view_modelfilter'' \<and> pk f = 5)"

text \<open>
  A listing of customers by name, after the scenario of the specification: a row
  satisfies the lookup \<open>name__exact\<close> when its name is the operand. The filter
  parameter is a decimal number.
\<close>

definition name_holds :: "string \<Rightarrow> string \<Rightarrow> int pyvalue \<Rightarrow> bool" where
  "name_holds row key operand = (key = ''name__exact'' \<and> operand = PStr row)"

definition example_to_pk :: "string \<Rightarrow> error + nat" where
  "example_to_pk s =
     (if s \<noteq> [] \<and> list_all (\<lambda>c. c \<in> set ''0123456789'') s
      then Inr (nat (digits_to_int s))
      else Inl (ValueError s))"

definition customer_env :: "(int, string) environment" where
  "customer_env =
     \<lparr>env_settings = default_settings, env_has_perm = customer_perms,
      env_get_objects_for_user = None, env_to_pk = example_to_pk,
      env_get_fields_from_path = example_fields, env_OR_SEPARATOR = ''__or__'',
      env_holds = name_holds\<rparr>"

definition customer_list_filter :: list_filter where
  "customer_list_filter = \<lparr>param_value = Some ''5'', lf_content_type = customer_type\<rparr>"

definition wile_request :: request where
  "wile_request = \<lparr>user = wile, POST = Map.empty, model_filter_model_filter = None\<rparr>"

text \<open>
  The superuser \<open>root\<close> submits the change form of the filter \<open>wile\<close> owns with the
  ordinary save button; the form carries the stored content type and the stored owner,
  the only choices it offers.
\<close>

definition root_save_request :: request where
  "root_save_request =
     \<lparr>user = root, POST = [''name'' \<mapsto> ''New Name'', ''_save'' \<mapsto> ''Save''],
      model_filter_model_filter = None\<rparr>"

definition customer_filter_form :: model_filter_form where
  "customer_filter_form =
     \<lparr>form_instance = customer_filter, cleaned_name = Some ''New Name'',
      cleaned_description = None, cleaned_content_type = customer_type,
      cleaned_owner = wile\<rparr>"

lemma consecutive_loop_flag:
  "consecutive_loop sep fs True =
     (if fs \<noteq> [] \<and> cd_field (hd fs) = Some sep
      then Inl (ValidationError ''Cannot have consecutive OR separators.'')
      else consecutive_loop sep fs False)"
  by (cases fs) simp_all

lemma adjacent_separators_Cons:
  "adjacent_separators sep (d # ds) =
     ((ds \<noteq> [] \<and> cd_field d = Some sep \<and> cd_field (hd ds) = Some sep)
      \<or> adjacent_separators sep ds)"
  by (cases ds) (simp_all add: adjacent_separators_def)

lemma consecutive_loop_adjacent:
  "consecutive_loop sep fs False =
     (if adjacent_separators sep fs
      then Inl (ValidationError ''Cannot have consecutive OR separators.'')
      else Inr ())"
proof (induction fs)
  case Nil
  show ?case by (simp add: adjacent_separators_def)
next
  case (Cons d ds)
  have step: "consecutive_loop sep (d # ds) False =
      (if cd_field d = Some sep then consecutive_loop sep ds True
       else consecutive_loop sep ds False)"
    by simp
  show ?case
    unfolding step consecutive_loop_flag [of sep ds] adjacent_separators_Cons Cons.IH
    by simp
qed

section \<open>Facts about query expressions\<close>

lemma is_empty_iff: "is_empty x \<longleftrightarrow> x = Q_empty"
  by (cases x) simp_all

lemma q_and_simps:
  "q_and x Q_empty = x"
  "q_and Q_empty y = y"
  "\<not> is_empty x \<Longrightarrow> \<not> is_empty y \<Longrightarrow> q_and x y = Q_and x y"
  by (simp_all add: q_and_def Q_combine_def is_empty_iff)

lemma q_or_simps:
  "q_or x Q_empty = x"
  "q_or Q_empty y = y"
  "\<not> is_empty x \<Longrightarrow> \<not> is_empty y \<Longrightarrow> q_or x y = Q_or x y"
  by (simp_all add: q_or_def Q_combine_def is_empty_iff)

lemma is_empty_q_and: "is_empty (q_and x y) \<longleftrightarrow> is_empty x \<and> is_empty y"
  by (simp add: q_and_def Q_combine_def)

lemma is_empty_q_or: "is_empty (q_or x y) \<longleftrightarrow> is_empty x \<and> is_empty y"
  by (simp add: q_or_def Q_combine_def)

lemma matches_q_and: "matches h (q_and x y) \<longleftrightarrow> matches h x \<and> matches h y"
  by (simp add: q_and_def Q_combine_def is_empty_iff)

lemma matches_q_or:
  "\<not> is_empty x \<Longrightarrow> \<not> is_empty y \<Longrightarrow>
     matches h (q_or x y) \<longleftrightarrow> matches h x \<or> matches h y"
  by (simp add: q_or_simps)

lemma is_empty_foldl_q_and:
  "is_empty (foldl q_and a cs) \<longleftrightarrow> is_empty a \<and> (\<forall>c\<in>set cs. is_empty c)"
  by (induction cs arbitrary: a) (auto simp: is_empty_q_and)

lemma matches_foldl_q_and:
  "matches h (foldl q_and a cs) \<longleftrightarrow> matches h a \<and> (\<forall>c\<in>set cs. matches h c)"
  by (induction cs arbitrary: a) (auto simp: matches_q_and)

lemma is_empty_and_all: "is_empty (and_all cs) \<longleftrightarrow> (\<forall>c\<in>set cs. is_empty c)"
  by (simp add: and_all_def is_empty_foldl_q_and)

lemma matches_and_all: "matches h (and_all cs) \<longleftrightarrow> (\<forall>c\<in>set cs. matches h c)"
  by (simp add: and_all_def matches_foldl_q_and)

lemma is_empty_foldl_q_or:
  "is_empty (foldl q_or a gs) \<longleftrightarrow> is_empty a \<and> (\<forall>g\<in>set gs. is_empty g)"
  by (induction gs arbitrary: a) (auto simp: is_empty_q_or)

text \<open>
  A disjunction built with \<open>|\<close> skips its empty operands: it matches a row when one
  of the operands that are not empty does, and every row when all are empty.
\<close>

lemma matches_foldl_q_or:
  "matches h (foldl q_or a gs) \<longleftrightarrow>
     (is_empty a \<and> (\<forall>g\<in>set gs. is_empty g))
     \<or> (\<not> is_empty a \<and> matches h a)
     \<or> (\<exists>g\<in>set gs. \<not> is_empty g \<and> matches h g)"
proof (induction gs arbitrary: a)
  case Nil
  show ?case by (auto simp: is_empty_iff)
next
  case (Cons g gs)
  show ?case
  proof (cases "is_empty g")
    case True
    then have "q_or a g = a" by (simp add: is_empty_iff q_or_simps)
    with Cons.IH [of a] True show ?thesis by auto
  next
    case g: False
    show ?thesis
    proof (cases "is_empty a")
      case True
      then have "q_or a g = g" by (simp add: is_empty_iff q_or_simps)
      with Cons.IH [of g] True g show ?thesis by auto
    next
      case False
      with g have "q_or a g = Q_or a g" by (simp add: q_or_simps)
      with Cons.IH [of "Q_or a g"] False g show ?thesis by auto
    qed
  qed
qed

lemma matches_or_all:
  "matches h (or_all gs) \<longleftrightarrow>
     (\<forall>g\<in>set gs. is_empty g) \<or> (\<exists>g\<in>set gs. \<not> is_empty g \<and> matches h g)"
  by (cases gs) (auto simp: matches_foldl_q_or)

lemma matches_or_all_proper:
  "\<forall>g\<in>set gs. \<not> is_empty g \<Longrightarrow> gs \<noteq> [] \<Longrightarrow>
     matches h (or_all gs) \<longleftrightarrow> (\<exists>g\<in>set gs. matches h g)"
  using matches_or_all [of h gs] by (cases gs) auto

section \<open>Facts about the compiler\<close>

lemma operator_tokens_distinct:
  "IS_NULL \<noteq> IS_EMPTY" "IS_NULL \<noteq> IS_TRUE" "IS_NULL \<noteq> IS_FALSE"
  "IS_EMPTY \<noteq> IS_TRUE" "IS_EMPTY \<noteq> IS_FALSE" "IS_TRUE \<noteq> IS_FALSE"
  by (simp_all add: IS_NULL_def IS_EMPTY_def IS_TRUE_def IS_FALSE_def)

lemma make_query_filter_eq:
  "make_query_filter gf f =
     (case build_query_params gf f of
        Inl e \<Rightarrow> Inl e
      | Inr (key, operand) \<Rightarrow>
          Inr (if negate f then Q_not (Q_leaf key operand) else Q_leaf key operand))"
  by (simp add: make_query_filter_def q_and_simps q_invert_def Q_kwargs_def
      split: sum.splits prod.splits)

lemma make_query_filter_not_empty:
  "make_query_filter gf f = Inr c \<Longrightarrow> \<not> is_empty c"
  by (auto simp: make_query_filter_eq split: sum.splits if_splits)

lemma build_query_params_compilable:
  "\<not> isl (build_query_params gf f) \<longleftrightarrow> compilable gf f"
  by (auto simp: build_query_params_def compilable_def no_value_operator_def
      split: sum.splits)

lemma make_query_filter_compilable:
  "\<not> isl (make_query_filter gf f) \<longleftrightarrow> compilable gf f"
  unfolding build_query_params_compilable [symmetric]
  by (simp add: make_query_filter_eq split: sum.splits prod.splits)

lemma split_groups_not_Nil: "split_groups sep fs \<noteq> []"
  by (induction fs) (auto split: list.splits)

lemma split_groups_no_separator:
  "\<forall>f\<in>set fs. field f \<noteq> sep \<Longrightarrow> split_groups sep fs = [fs]"
  by (induction fs) auto

lemma set_split_groups:
  "g \<in> set (split_groups sep fs) \<Longrightarrow> f \<in> set g \<Longrightarrow> f \<in> set fs \<and> field f \<noteq> sep"
proof (induction fs arbitrary: g)
  case Nil
  then show ?case by simp
next
  case (Cons a fs)
  show ?case
  proof (cases "field a = sep")
    case True
    with Cons.prems have "g = [] \<or> g \<in> set (split_groups sep fs)" by auto
    with Cons.prems Cons.IH show ?thesis by auto
  next
    case False
    obtain g0 gs where sp: "split_groups sep fs = g0 # gs"
      using split_groups_not_Nil [of sep fs] by (cases "split_groups sep fs") auto
    with False Cons.prems have "g = a # g0 \<or> g \<in> set gs" by auto
    then show ?thesis
    proof
      assume "g = a # g0"
      with Cons.prems Cons.IH [of g0] sp False show ?thesis by auto
    next
      assume "g \<in> set gs"
      with Cons.prems Cons.IH [of g] sp show ?thesis by auto
    qed
  qed
qed

text \<open>
  The loop, when every clause that is not a separator compiles to \<open>c f\<close>: the
  accumulator ends as the last group, the list holds the groups before it.
\<close>

lemma build_loop_groups:
  assumes "\<forall>f\<in>set fs. field f \<noteq> sep \<longrightarrow> make_query_filter gf f = Inr (c f)"
  shows "build_loop gf sep fs qa qs =
     (case split_groups sep fs of
        [] \<Rightarrow> Inr (qa, qs)
      | g # gs \<Rightarrow>
          Inr (last (foldl q_and qa (map c g) # map (\<lambda>g. and_all (map c g)) gs),
               qs @ butlast (foldl q_and qa (map c g) # map (\<lambda>g. and_all (map c g)) gs)))"
  using assms
proof (induction fs arbitrary: qa qs)
  case Nil
  show ?case by simp
next
  case (Cons a fs)
  obtain g0 gs where sp: "split_groups sep fs = g0 # gs"
    using split_groups_not_Nil [of sep fs] by (cases "split_groups sep fs") auto
  from Cons.prems have rest: "\<forall>f\<in>set fs. field f \<noteq> sep \<longrightarrow> make_query_filter gf f = Inr (c f)"
    by simp
  show ?case
  proof (cases "field a = sep")
    case True
    have "build_loop gf sep (a # fs) qa qs = build_loop gf sep fs Q_empty (qs @ [qa])"
      using True by simp
    also have "\<dots> = Inr (last (and_all (map c g0) # map (\<lambda>g. and_all (map c g)) gs),
        (qs @ [qa]) @ butlast (and_all (map c g0) # map (\<lambda>g. and_all (map c g)) gs))"
      using Cons.IH [OF rest, of Q_empty "qs @ [qa]"] sp by (simp add: and_all_def)
    finally show ?thesis using True sp by simp
  next
    case False
    with Cons.prems have ca: "make_query_filter gf a = Inr (c a)" by simp
    have "build_loop gf sep (a # fs) qa qs = build_loop gf sep fs (q_and qa (c a)) qs"
      using False ca by simp
    also have "\<dots> = Inr (last (foldl q_and (q_and qa (c a)) (map c g0)
          # map (\<lambda>g. and_all (map c g)) gs),
        qs @ butlast (foldl q_and (q_and qa (c a)) (map c g0)
          # map (\<lambda>g. and_all (map c g)) gs))"
      using Cons.IH [OF rest, of "q_and qa (c a)" qs] sp by simp
    finally show ?thesis using False sp by simp
  qed
qed

lemma reduce_q_or_or_all: "xs \<noteq> [] \<Longrightarrow> reduce q_or xs = Inr (or_all xs)"
  by (cases xs) simp_all

lemma build_query_filter_groups:
  assumes "\<forall>f\<in>set (mf_fields mf). field f \<noteq> sep \<longrightarrow> make_query_filter gf f = Inr (c f)"
  shows "build_query_filter gf sep mf =
     Inr (or_all (map (\<lambda>g. and_all (map c g)) (split_groups sep (mf_fields mf))))"
proof -
  obtain g0 gs where sp: "split_groups sep (mf_fields mf) = g0 # gs"
    using split_groups_not_Nil [of sep "mf_fields mf"]
    by (cases "split_groups sep (mf_fields mf)") auto
  let ?all = "and_all (map c g0) # map (\<lambda>g. and_all (map c g)) gs"
  have loop: "build_loop gf sep (mf_fields mf) Q_empty [] = Inr (last ?all, butlast ?all)"
    using build_loop_groups [OF assms, of Q_empty "[]"] sp by (simp add: and_all_def)
  show ?thesis
  proof (cases "butlast ?all = []")
    case True
    then have "gs = []" by (cases gs) simp_all
    with loop sp show ?thesis by (simp add: build_query_filter_def)
  next
    case False
    have "butlast ?all @ [last ?all] = ?all" by (rule append_butlast_last_id) simp
    with loop sp False show ?thesis
      by (simp add: build_query_filter_def reduce_q_or_or_all del: butlast.simps last.simps)
  qed
qed

text \<open>A clause that does not compile makes the whole compilation raise.\<close>

lemma build_loop_failure:
  assumes "f \<in> set fs" "field f \<noteq> sep" "isl (make_query_filter gf f)"
  shows "isl (build_loop gf sep fs qa qs)"
  using assms
proof (induction fs arbitrary: qa qs)
  case Nil
  then show ?case by simp
next
  case (Cons a fs)
  show ?case
  proof (cases "field a = sep")
    case True
    with Cons.prems have "f \<in> set fs" by auto
    with Cons.IH Cons.prems True show ?thesis by simp
  next
    case False
    show ?thesis
    proof (cases "make_query_filter gf a")
      case (Inl e)
      with False show ?thesis by simp
    next
      case (Inr ca)
      with Cons.prems have "f \<in> set fs" by auto
      with Cons.IH Cons.prems False Inr show ?thesis by simp
    qed
  qed
qed

lemma build_query_filter_failure:
  assumes "f \<in> set (mf_fields mf)" "field f \<noteq> sep" "isl (make_query_filter gf f)"
  shows "isl (build_query_filter gf sep mf)"
  using build_loop_failure [OF assms, of Q_empty "[]"]
  by (auto simp: build_query_filter_def isl_def)

text \<open>What the compiled expression matches, when no AND-group is empty.\<close>

lemma compiled_condition_not_empty:
  assumes "\<forall>f\<in>set (mf_fields mf). field f \<noteq> sep \<longrightarrow> make_query_filter gf f = Inr (c f)"
    and "g \<in> set (split_groups sep (mf_fields mf))" "f \<in> set g"
  shows "\<not> is_empty (c f)"
proof -
  from set_split_groups [OF assms(2,3)] have "f \<in> set (mf_fields mf)" "field f \<noteq> sep"
    by simp_all
  with assms(1) have "make_query_filter gf f = Inr (c f)" by simp
  then show ?thesis by (rule make_query_filter_not_empty)
qed

lemma compiled_matches:
  assumes compiles:
      "\<forall>f\<in>set (mf_fields mf). field f \<noteq> sep \<longrightarrow> make_query_filter gf f = Inr (c f)"
    and no_empty: "[] \<notin> set (split_groups sep (mf_fields mf))"
  shows "matches h (or_all (map (\<lambda>g. and_all (map c g)) (split_groups sep (mf_fields mf))))
     \<longleftrightarrow> (\<exists>g\<in>set (split_groups sep (mf_fields mf)). \<forall>f\<in>set g. matches h (c f))"
proof -
  let ?groups = "split_groups sep (mf_fields mf)"
  have "\<not> is_empty (and_all (map c g))" if "g \<in> set ?groups" for g
  proof -
    from that no_empty have "g \<noteq> []" by auto
    then obtain f where "f \<in> set g" by (cases g) auto
    with compiled_condition_not_empty [OF compiles that] show ?thesis
      by (auto simp: is_empty_and_all)
  qed
  then have "\<forall>x\<in>set (map (\<lambda>g. and_all (map c g)) ?groups). \<not> is_empty x" by auto
  moreover have "map (\<lambda>g. and_all (map c g)) ?groups \<noteq> []"
    by (simp add: split_groups_not_Nil)
  ultimately have "matches h (or_all (map (\<lambda>g. and_all (map c g)) ?groups)) \<longleftrightarrow>
      (\<exists>x\<in>set (map (\<lambda>g. and_all (map c g)) ?groups). matches h x)"
    by (rule matches_or_all_proper)
  then show ?thesis by (simp add: matches_and_all)
qed

section \<open>Validated sequences have no empty group\<close>

lemma hd_split_groups:
  "hd (split_groups sep fs) = [] \<longleftrightarrow> fs = [] \<or> field (hd fs) = sep"
proof (cases fs)
  case Nil
  then show ?thesis by simp
next
  case (Cons f rest)
  obtain g gs where "split_groups sep rest = g # gs"
    using split_groups_not_Nil [of sep rest] by (cases "split_groups sep rest") auto
  with Cons show ?thesis by simp
qed

lemma tl_split_groups:
  "[] \<in> set (tl (split_groups sep fs)) \<longleftrightarrow>
     (fs \<noteq> [] \<and> field (last fs) = sep)
     \<or> list_ex (\<lambda>(a, b). field a = sep \<and> field b = sep) (zip fs (tl fs))"
proof (induction fs)
  case Nil
  show ?case by simp
next
  case (Cons f rest)
  obtain g gs where sp: "split_groups sep rest = g # gs"
    using split_groups_not_Nil [of sep rest] by (cases "split_groups sep rest") auto
  show ?case
  proof (cases "field f = sep")
    case True
    have "[] \<in> set (tl (split_groups sep (f # rest))) \<longleftrightarrow>
        hd (split_groups sep rest) = [] \<or> [] \<in> set (tl (split_groups sep rest))"
      using True sp by auto
    also have "\<dots> \<longleftrightarrow> rest = [] \<or> field (hd rest) = sep
        \<or> (rest \<noteq> [] \<and> field (last rest) = sep)
        \<or> list_ex (\<lambda>(a, b). field a = sep \<and> field b = sep) (zip rest (tl rest))"
      unfolding hd_split_groups Cons.IH by blast
    finally show ?thesis using True by (cases rest) auto
  next
    case False
    have "[] \<in> set (tl (split_groups sep (f # rest))) \<longleftrightarrow>
        [] \<in> set (tl (split_groups sep rest))"
      using False sp by simp
    with Cons.IH False show ?thesis by (cases rest) auto
  qed
qed

lemma empty_group_iff:
  "[] \<in> set (split_groups sep fs) \<longleftrightarrow>
     fs = [] \<or> field (hd fs) = sep \<or> field (last fs) = sep
     \<or> list_ex (\<lambda>(a, b). field a = sep \<and> field b = sep) (zip fs (tl fs))"
proof -
  have "[] \<in> set (split_groups sep fs) \<longleftrightarrow>
      hd (split_groups sep fs) = [] \<or> [] \<in> set (tl (split_groups sep fs))"
    using split_groups_not_Nil [of sep fs] by (cases "split_groups sep fs") auto
  then show ?thesis unfolding hd_split_groups tl_split_groups by blast
qed

lemma adjacent_separators_cleaned_of:
  "adjacent_separators sep (map cleaned_of fs) \<longleftrightarrow>
     list_ex (\<lambda>(a, b). field a = sep \<and> field b = sep) (zip fs (tl fs))"
proof (induction fs)
  case Nil
  show ?case by (simp add: adjacent_separators_def)
next
  case (Cons f rest)
  then show ?case
    by (cases rest) (simp_all add: adjacent_separators_Cons cleaned_of_def)
qed

lemma accepted_no_empty_group:
  assumes "clean_field_filters sep (map cleaned_of fs) = Inr ()"
  shows "[] \<notin> set (split_groups sep fs)"
proof -
  have keep: "filter not_deleted (map cleaned_of fs) = map cleaned_of fs"
    by (induction fs) (simp_all add: not_deleted_def cleaned_of_def)
  from assms have ne: "fs \<noteq> []"
    by (auto simp: clean_field_filters_def)
  with assms have first: "field (hd fs) \<noteq> sep"
    by (auto simp: clean_field_filters_def keep Let_def hd_map cleaned_of_def
        split: if_splits)
  from assms ne have last: "field (last fs) \<noteq> sep"
    by (auto simp: clean_field_filters_def keep Let_def last_map cleaned_of_def
        split: if_splits)
  from assms ne have "\<not> adjacent_separators sep (map cleaned_of fs)"
    by (auto simp: clean_field_filters_def keep Let_def consecutive_loop_adjacent
        split: if_splits)
  then have "\<not> list_ex (\<lambda>(a, b). field a = sep \<and> field b = sep) (zip fs (tl fs))"
    by (simp add: adjacent_separators_cleaned_of)
  with ne first last show ?thesis by (simp add: empty_group_iff)
qed

text \<open>
  Claim C2. The sequence validator rejects exactly when, after dropping the clauses marked
  for deletion, nothing remains, or the first remaining clause is the OR separator, or the
  last one is, or two adjacent remaining clauses both are; every other sequence is
  accepted. The rules are tried in this order and the first violated rule gives the
  error.
\<close>

theorem clean_field_filters_rules:
  "(let filters = filter not_deleted cleaned in
     clean_field_filters OR_SEPARATOR cleaned =
       (if filters = []
        then Inl (ValidationError ''At least one field filter is required.'')
        else if cd_field (hd filters) = Some OR_SEPARATOR
        then Inl (ValidationError ''First field filter cannot be an OR separator.'')
        else if cd_field (last filters) = Some OR_SEPARATOR
        then Inl (ValidationError ''Last field filter cannot be an OR separator.'')
        else if adjacent_separators OR_SEPARATOR filters
        then Inl (ValidationError ''Cannot have consecutive OR separators.'')
        else Inr ())
     \<and> (isl (clean_field_filters OR_SEPARATOR cleaned) \<longleftrightarrow>
          filters = []
          \<or> cd_field (hd filters) = Some OR_SEPARATOR
          \<or> cd_field (last filters) = Some OR_SEPARATOR
          \<or> adjacent_separators OR_SEPARATOR filters))"
  by (simp add: clean_field_filters_def Let_def consecutive_loop_adjacent)

theorem clean_field_filters_rules_witness:
  "clean_field_filters ''__or__''
     [\<lparr>cd_field = Some ''name'', cd_operator = None, cd_value = None, cd_DELETE = None\<rparr>,
      \<lparr>cd_field = None, cd_operator = None, cd_value = None, cd_DELETE = Some True\<rparr>,
      \<lparr>cd_field = Some ''__or__'', cd_operator = None, cd_value = None,
         cd_DELETE = Some True\<rparr>,
      \<lparr>cd_field = Some ''__or__'', cd_operator = None, cd_value = None, cd_DELETE = None\<rparr>,
      \<lparr>cd_field = Some ''description'', cd_operator = None, cd_value = None,
         cd_DELETE = None\<rparr>] = Inr ()
   \<and> clean_field_filters ''__or__''
     [\<lparr>cd_field = Some ''name'', cd_operator = None, cd_value = None, cd_DELETE = None\<rparr>,
      \<lparr>cd_field = Some ''__or__'', cd_operator = None, cd_value = None, cd_DELETE = None\<rparr>,
      \<lparr>cd_field = Some ''__or__'', cd_operator = None, cd_value = None, cd_DELETE = None\<rparr>,
      \<lparr>cd_field = Some ''description'', cd_operator = None, cd_value = None,
         cd_DELETE = None\<rparr>]
     = Inl (ValidationError ''Cannot have consecutive OR separators.'')"
  using clean_field_filters_rules [of
      "[\<lparr>cd_field = Some ''name'', cd_operator = None, cd_value = None, cd_DELETE = None\<rparr>,
      \<lparr>cd_field = None, cd_operator = None, cd_value = None, cd_DELETE = Some True\<rparr>,
      \<lparr>cd_field = Some ''__or__'', cd_operator = None, cd_value = None,
         cd_DELETE = Some True\<rparr>,
      \<lparr>cd_field = Some ''__or__'', cd_operator = None, cd_value = None, cd_DELETE = None\<rparr>,
      \<lparr>cd_field = Some ''description'', cd_operator = None, cd_value = None,
         cd_DELETE = None\<rparr>]" "''__or__''"]
    clean_field_filters_rules [of
      "[\<lparr>cd_field = Some ''name'', cd_operator = None, cd_value = None, cd_DELETE = None\<rparr>,
      \<lparr>cd_field = Some ''__or__'', cd_operator = None, cd_value = None, cd_DELETE = None\<rparr>,
      \<lparr>cd_field = Some ''__or__'', cd_operator = None, cd_value = None, cd_DELETE = None\<rparr>,
      \<lparr>cd_field = Some ''description'', cd_operator = None, cd_value = None,
         cd_DELETE = None\<rparr>]" "''__or__''"]
  by (simp add: Let_def not_deleted_def adjacent_separators_def)

section \<open>The compiled expression\<close>

lemma build_query_params_mapping:
  "(operator f = IS_NULL \<longrightarrow> build_query_params gf f = Inr (field f, PNone))
   \<and> (operator f = IS_EMPTY \<longrightarrow> build_query_params gf f = Inr (field f, PStr []))
   \<and> (operator f = IS_TRUE \<longrightarrow> build_query_params gf f = Inr (field f, PBool True))
   \<and> (operator f = IS_FALSE \<longrightarrow> build_query_params gf f = Inr (field f, PBool False))
   \<and> (\<not> no_value_operator (operator f) \<longrightarrow>
        (\<forall>key operand. build_query_params gf f = Inr (key, operand) \<longleftrightarrow>
           key = field f @ ''__'' @ operator f
           \<and> (\<exists>model_field. gf (field f) = Inr model_field
                \<and> to_python model_field (raw_value f) = Inr operand)))"
proof (intro conjI impI allI)
  show "build_query_params gf f = Inr (field f, PNone)" if "operator f = IS_NULL"
    using that by (simp add: build_query_params_def)
  show "build_query_params gf f = Inr (field f, PStr [])" if "operator f = IS_EMPTY"
    using that by (simp add: build_query_params_def operator_tokens_distinct [symmetric])
  show "build_query_params gf f = Inr (field f, PBool True)" if "operator f = IS_TRUE"
    using that by (simp add: build_query_params_def operator_tokens_distinct [symmetric])
  show "build_query_params gf f = Inr (field f, PBool False)" if "operator f = IS_FALSE"
    using that by (simp add: build_query_params_def operator_tokens_distinct [symmetric])
  show "build_query_params gf f = Inr (key, operand) \<longleftrightarrow>
           key = field f @ ''__'' @ operator f
           \<and> (\<exists>model_field. gf (field f) = Inr model_field
                \<and> to_python model_field (raw_value f) = Inr operand)"
    if "\<not> no_value_operator (operator f)" for key operand
    using that
    by (cases "gf (field f)")
       (auto simp: build_query_params_def no_value_operator_def split: sum.splits)
qed

lemma make_query_filter_shape:
  assumes "make_query_filter gf f = Inr c"
  shows "\<exists>key operand. build_query_params gf f = Inr (key, operand)
     \<and> c = (if negate f then Q_not (Q_leaf key operand) else Q_leaf key operand)"
  using assms by (auto simp: make_query_filter_eq split: sum.splits)

lemma build_query_params_no_value:
  assumes "build_query_params gf f = Inr (key, operand)"
  shows "(operator f = IS_NULL \<longrightarrow> key = field f \<and> operand = PNone)
       \<and> (operator f = IS_EMPTY \<longrightarrow> key = field f \<and> operand = PStr [])
       \<and> (operator f = IS_TRUE \<longrightarrow> key = field f \<and> operand = PBool True)
       \<and> (operator f = IS_FALSE \<longrightarrow> key = field f \<and> operand = PBool False)"
proof (intro conjI impI)
  assume "operator f = IS_NULL"
  with assms show "key = field f" "operand = PNone"
    by (simp_all add: build_query_params_def)
next
  assume "operator f = IS_EMPTY"
  with assms show "key = field f" "operand = PStr []"
    by (simp_all add: build_query_params_def operator_tokens_distinct [symmetric])
next
  assume "operator f = IS_TRUE"
  with assms show "key = field f" "operand = PBool True"
    by (simp_all add: build_query_params_def operator_tokens_distinct [symmetric])
next
  assume "operator f = IS_FALSE"
  with assms show "key = field f" "operand = PBool False"
    by (simp_all add: build_query_params_def operator_tokens_distinct [symmetric])
qed

lemma build_query_params_converted:
  assumes "build_query_params gf f = Inr (key, operand)" "\<not> no_value_operator (operator f)"
  shows "key = field f @ ''__'' @ operator f
     \<and> (\<exists>model_field. gf (field f) = Inr model_field
          \<and> to_python model_field (raw_value f) = Inr operand)"
  using assms
  by (cases "gf (field f)")
     (auto simp: build_query_params_def no_value_operator_def split: sum.splits)

lemma condition_mapping:
  assumes "make_query_filter gf f = Inr c"
  shows "\<exists>key operand.
       c = (if negate f then Q_not (Q_leaf key operand) else Q_leaf key operand)
       \<and> (operator f = IS_NULL \<longrightarrow> key = field f \<and> operand = PNone)
       \<and> (operator f = IS_EMPTY \<longrightarrow> key = field f \<and> operand = PStr [])
       \<and> (operator f = IS_TRUE \<longrightarrow> key = field f \<and> operand = PBool True)
       \<and> (operator f = IS_FALSE \<longrightarrow> key = field f \<and> operand = PBool False)
       \<and> (\<not> no_value_operator (operator f) \<longrightarrow>
            key = field f @ ''__'' @ operator f
            \<and> (\<exists>model_field. gf (field f) = Inr model_field
                 \<and> to_python model_field (raw_value f) = Inr operand))"
proof -
  from make_query_filter_shape [OF assms] obtain key operand where
    params: "build_query_params gf f = Inr (key, operand)"
    and shape: "c = (if negate f then Q_not (Q_leaf key operand) else Q_leaf key operand)"
    by blast
  have conv: "\<not> no_value_operator (operator f) \<longrightarrow>
            key = field f @ ''__'' @ operator f
            \<and> (\<exists>model_field. gf (field f) = Inr model_field
                 \<and> to_python model_field (raw_value f) = Inr operand)"
    using build_query_params_converted [OF params] by blast
  show ?thesis
    apply (rule exI [of _ key])
    apply (rule exI [of _ operand])
    apply (rule conjI)
     apply (rule shape)
    apply (rule conjI)
     apply (rule build_query_params_no_value [OF params, THEN conjunct1])
    apply (rule conjI)
     apply (rule build_query_params_no_value [OF params, THEN conjunct2, THEN conjunct1])
    apply (rule conjI)
     apply (rule build_query_params_no_value
        [OF params, THEN conjunct2, THEN conjunct2, THEN conjunct1])
    apply (rule conjI)
     apply (rule build_query_params_no_value
        [OF params, THEN conjunct2, THEN conjunct2, THEN conjunct2])
    apply (rule conv)
    done
qed

lemma split_groups_example:
  assumes "field s = sep" "field s' = sep"
    "field A \<noteq> sep" "field B \<noteq> sep" "field C \<noteq> sep" "field D \<noteq> sep"
  shows "split_groups sep [A, s, B, C, s', D] = [[A], [B, C], [D]]"
  using assms by simp

text \<open>
  A counterexample to claim C1 as stated: the sequence validator accepts the sequence
  \<open>[name exact A, OR, age gte Road Runner]\<close>, and for the filter that stores it
  the compiler produces no expression: the integer field cannot convert the value
  of the last clause, and the compiler raises.
\<close>

theorem build_query_filter_stored_counterexample:
  "clean_field_filters ''__or__''
     (map cleaned_of
       [example_clause ''name'' ''exact'' ''A'' False,
        example_clause ''__or__'' ''exact'' [] False,
        example_clause ''age'' ''gte'' ''Road Runner'' False]) = Inr ()
   \<and> build_query_filter example_fields ''__or__''
     (example_filter
       [example_clause ''name'' ''exact'' ''A'' False,
        example_clause ''__or__'' ''exact'' [] False,
        example_clause ''age'' ''gte'' ''Road Runner'' False])
   = Inl (ValidationError
       (CHR 0x27 # ''Road Runner'' @ CHR 0x27 # '' value must be an integer.''))"
  by (simp add: clean_field_filters_def not_deleted_def cleaned_of_def
      build_query_filter_def example_filter_def example_clause_def
      make_query_filter_eq build_query_params_def example_fields_def
      IS_NULL_def IS_EMPTY_def IS_TRUE_def IS_FALSE_def
      IntegerField_to_python_def q_and_simps)

text \<open>
  Claim C1, amended. Let every clause that is not the separator compile, to the condition
  \<open>c f\<close>: its operator takes no value, or its field resolves and its value converts.
  Then the compiler returns the disjunction (\<open>|\<close>) of the AND-groups (\<open>&\<close>) into which the
  separators split the clause sequence; with no empty group, and so for every sequence
  the sequence validator accepts, this expression matches a row exactly when some
  group has all its conditions matching; with no separator it is
  the conjunction of all conditions; for \<open>[A, OR, B, C, OR, D]\<close> it is
  \<open>A | (B & C) | D\<close>. Each condition is the lookup the operand mapping gives (is-null:
  field = None, is-empty: field = "", is-true: field = True, is-false: field = False,
  any other operator: field__operator = to_python(value)), negated if the clause says so.
\<close>

theorem build_query_filter_sum_of_products:
  assumes "\<forall>f\<in>set (mf_fields mf). field f \<noteq> OR_SEPARATOR \<longrightarrow>
             make_query_filter gf f = Inr (c f)"
  shows "build_query_filter gf OR_SEPARATOR mf =
           Inr (or_all (map (\<lambda>g. and_all (map c g))
                  (split_groups OR_SEPARATOR (mf_fields mf))))
     \<and> ([] \<notin> set (split_groups OR_SEPARATOR (mf_fields mf)) \<longrightarrow>
          (matches h (or_all (map (\<lambda>g. and_all (map c g))
                  (split_groups OR_SEPARATOR (mf_fields mf)))) \<longleftrightarrow>
             (\<exists>g\<in>set (split_groups OR_SEPARATOR (mf_fields mf)).
                \<forall>f\<in>set g. matches h (c f))))
     \<and> (clean_field_filters OR_SEPARATOR (map cleaned_of (mf_fields mf)) = Inr () \<longrightarrow>
          (matches h (or_all (map (\<lambda>g. and_all (map c g))
                  (split_groups OR_SEPARATOR (mf_fields mf)))) \<longleftrightarrow>
             (\<exists>g\<in>set (split_groups OR_SEPARATOR (mf_fields mf)).
                \<forall>f\<in>set g. matches h (c f))))
     \<and> ((\<forall>f\<in>set (mf_fields mf). field f \<noteq> OR_SEPARATOR) \<longrightarrow>
          build_query_filter gf OR_SEPARATOR mf = Inr (and_all (map c (mf_fields mf)))
          \<and> (matches h (and_all (map c (mf_fields mf))) \<longleftrightarrow>
               (\<forall>f\<in>set (mf_fields mf). matches h (c f))))
     \<and> (\<forall>A s B C s' D.
          mf_fields mf = [A, s, B, C, s', D]
          \<and> field s = OR_SEPARATOR \<and> field s' = OR_SEPARATOR
          \<and> field A \<noteq> OR_SEPARATOR \<and> field B \<noteq> OR_SEPARATOR
          \<and> field C \<noteq> OR_SEPARATOR \<and> field D \<noteq> OR_SEPARATOR \<longrightarrow>
          build_query_filter gf OR_SEPARATOR mf =
            Inr (Q_or (Q_or (c A) (Q_and (c B) (c C))) (c D)))
     \<and> (\<forall>f\<in>set (mf_fields mf). field f \<noteq> OR_SEPARATOR \<longrightarrow>
          (\<exists>key operand.
             c f = (if negate f then Q_not (Q_leaf key operand) else Q_leaf key operand)
             \<and> (operator f = IS_NULL \<longrightarrow> key = field f \<and> operand = PNone)
             \<and> (operator f = IS_EMPTY \<longrightarrow> key = field f \<and> operand = PStr [])
             \<and> (operator f = IS_TRUE \<longrightarrow> key = field f \<and> operand = PBool True)
             \<and> (operator f = IS_FALSE \<longrightarrow> key = field f \<and> operand = PBool False)
             \<and> (\<not> no_value_operator (operator f) \<longrightarrow>
                  key = field f @ ''__'' @ operator f
                  \<and> (\<exists>model_field. gf (field f) = Inr model_field
                       \<and> to_python model_field (raw_value f) = Inr operand))))"
proof -
  let ?fs = "mf_fields mf"
  let ?groups = "split_groups OR_SEPARATOR ?fs"
  let ?result = "or_all (map (\<lambda>g. and_all (map c g)) ?groups)"
  have compiled: "build_query_filter gf OR_SEPARATOR mf = Inr ?result"
    by (rule build_query_filter_groups [OF assms])
  have proper: "\<not> is_empty (c f)" if "g \<in> set ?groups" "f \<in> set g" for g f
    using compiled_condition_not_empty [OF assms that] .
  have semantics: "matches h ?result \<longleftrightarrow> (\<exists>g\<in>set ?groups. \<forall>f\<in>set g. matches h (c f))"
    if no_empty: "[] \<notin> set ?groups"
    using compiled_matches [OF assms that] .
  have plain: "build_query_filter gf OR_SEPARATOR mf = Inr (and_all (map c ?fs))"
    if "\<forall>f\<in>set ?fs. field f \<noteq> OR_SEPARATOR"
    using compiled split_groups_no_separator [OF that] by simp
  have example: "build_query_filter gf OR_SEPARATOR mf =
      Inr (Q_or (Q_or (c A) (Q_and (c B) (c C))) (c D))"
    if fs: "?fs = [A, s, B, C, s', D]" and seps: "field s = OR_SEPARATOR" "field s' = OR_SEPARATOR"
      and normal: "field A \<noteq> OR_SEPARATOR" "field B \<noteq> OR_SEPARATOR"
        "field C \<noteq> OR_SEPARATOR" "field D \<noteq> OR_SEPARATOR"
    for A s B C s' D
  proof -
    have groups: "?groups = [[A], [B, C], [D]]"
      unfolding fs by (rule split_groups_example [OF seps normal])
    have ne: "\<not> is_empty (c A)" "\<not> is_empty (c B)" "\<not> is_empty (c C)" "\<not> is_empty (c D)"
      using proper [of "[A]" A] proper [of "[B, C]" B] proper [of "[B, C]" C]
        proper [of "[D]" D] groups by simp_all
    have "?result = Q_or (Q_or (c A) (Q_and (c B) (c C))) (c D)"
      using ne by (simp add: groups and_all_def q_and_simps q_or_simps)
    with compiled show ?thesis by simp
  qed
  have mapping: "\<exists>key operand.
       c f = (if negate f then Q_not (Q_leaf key operand) else Q_leaf key operand)
       \<and> (operator f = IS_NULL \<longrightarrow> key = field f \<and> operand = PNone)
       \<and> (operator f = IS_EMPTY \<longrightarrow> key = field f \<and> operand = PStr [])
       \<and> (operator f = IS_TRUE \<longrightarrow> key = field f \<and> operand = PBool True)
       \<and> (operator f = IS_FALSE \<longrightarrow> key = field f \<and> operand = PBool False)
       \<and> (\<not> no_value_operator (operator f) \<longrightarrow>
            key = field f @ ''__'' @ operator f
            \<and> (\<exists>model_field. gf (field f) = Inr model_field
                 \<and> to_python model_field (raw_value f) = Inr operand))"
    if "f \<in> set ?fs" "field f \<noteq> OR_SEPARATOR" for f
  proof -
    from that assms have "make_query_filter gf f = Inr (c f)" by simp
    then show ?thesis by (rule condition_mapping)
  qed
  show ?thesis
  proof (intro conjI)
    show "build_query_filter gf OR_SEPARATOR mf = Inr ?result" by (rule compiled)
    show "[] \<notin> set ?groups \<longrightarrow>
        (matches h ?result \<longleftrightarrow> (\<exists>g\<in>set ?groups. \<forall>f\<in>set g. matches h (c f)))"
      using semantics by blast
    show "clean_field_filters OR_SEPARATOR (map cleaned_of ?fs) = Inr () \<longrightarrow>
        (matches h ?result \<longleftrightarrow> (\<exists>g\<in>set ?groups. \<forall>f\<in>set g. matches h (c f)))"
      using semantics accepted_no_empty_group [of OR_SEPARATOR ?fs] by blast
    show "(\<forall>f\<in>set ?fs. field f \<noteq> OR_SEPARATOR) \<longrightarrow>
        build_query_filter gf OR_SEPARATOR mf = Inr (and_all (map c ?fs))
        \<and> (matches h (and_all (map c ?fs)) \<longleftrightarrow> (\<forall>f\<in>set ?fs. matches h (c f)))"
      using plain by (simp add: matches_and_all)
    show "\<forall>A s B C s' D.
          ?fs = [A, s, B, C, s', D]
          \<and> field s = OR_SEPARATOR \<and> field s' = OR_SEPARATOR
          \<and> field A \<noteq> OR_SEPARATOR \<and> field B \<noteq> OR_SEPARATOR
          \<and> field C \<noteq> OR_SEPARATOR \<and> field D \<noteq> OR_SEPARATOR \<longrightarrow>
          build_query_filter gf OR_SEPARATOR mf =
            Inr (Q_or (Q_or (c A) (Q_and (c B) (c C))) (c D))"
      using example by blast
    show "\<forall>f\<in>set ?fs. field f \<noteq> OR_SEPARATOR \<longrightarrow>
          (\<exists>key operand.
             c f = (if negate f then Q_not (Q_leaf key operand) else Q_leaf key operand)
             \<and> (operator f = IS_NULL \<longrightarrow> key = field f \<and> operand = PNone)
             \<and> (operator f = IS_EMPTY \<longrightarrow> key = field f \<and> operand = PStr [])
             \<and> (operator f = IS_TRUE \<longrightarrow> key = field f \<and> operand = PBool True)
             \<and> (operator f = IS_FALSE \<longrightarrow> key = field f \<and> operand = PBool False)
             \<and> (\<not> no_value_operator (operator f) \<longrightarrow>
                  key = field f @ ''__'' @ operator f
                  \<and> (\<exists>model_field. gf (field f) = Inr model_field
                       \<and> to_python model_field (raw_value f) = Inr operand)))"
      using mapping by blast
  qed
qed

theorem build_query_filter_sum_of_products_witness:
  "build_query_filter example_fields ''__or__''
     (example_filter
       [example_clause ''name'' ''exact'' ''Tornado Seeds'' False,
        example_clause ''__or__'' ''exact'' [] False,
        example_clause ''description'' ''contains'' ''Just add water'' False,
        example_clause ''code'' ''exact'' ''TS'' True,
        example_clause ''__or__'' ''exact'' [] False,
        example_clause ''age'' ''gte'' ''18'' False])
   = Inr (Q_or
           (Q_or (Q_leaf ''name__exact'' (PStr ''Tornado Seeds''))
                 (Q_and (Q_leaf ''description__contains'' (PStr ''Just add water''))
                        (Q_not (Q_leaf ''code__exact'' (PStr ''TS'')))))
           (Q_leaf ''age__gte'' (PObj 18)))"
proof -
  let ?mf = "example_filter
       [example_clause ''name'' ''exact'' ''Tornado Seeds'' False,
        example_clause ''__or__'' ''exact'' [] False,
        example_clause ''description'' ''contains'' ''Just add water'' False,
        example_clause ''code'' ''exact'' ''TS'' True,
        example_clause ''__or__'' ''exact'' [] False,
        example_clause ''age'' ''gte'' ''18'' False]"
  have compiles: "\<forall>f\<in>set (mf_fields ?mf). field f \<noteq> ''__or__'' \<longrightarrow>
      make_query_filter example_fields f = Inr (condition_of example_fields f)"
    by (simp add: example_filter_def example_clause_def condition_of_def
        make_query_filter_eq build_query_params_def example_fields_def
        IS_NULL_def IS_EMPTY_def IS_TRUE_def IS_FALSE_def
        IntegerField_to_python_def)
  have "build_query_filter example_fields ''__or__'' ?mf =
      Inr (or_all (map (\<lambda>g. and_all (map (condition_of example_fields) g))
             (split_groups ''__or__'' (mf_fields ?mf))))"
    using build_query_filter_sum_of_products [OF compiles] by (rule conjunct1)
  then show ?thesis
    by (simp add: example_filter_def example_clause_def condition_of_def
        make_query_filter_eq build_query_params_def example_fields_def
        IS_NULL_def IS_EMPTY_def IS_TRUE_def IS_FALSE_def
        IntegerField_to_python_def digits_to_int_def
        and_all_def q_and_simps q_or_simps)
qed

section \<open>Values of clauses that take none\<close>

text \<open>
  A counterexample to claim C7 as stated. An OR-separator clause whose operator did not
  survive cleaning gets the value \<open>None\<close>, not the empty string, and a value error
  raised before stays; the same happens to a clause with the operator \<open>isnull\<close> whose
  field did not survive cleaning.
\<close>

theorem clean_value_counterexample:
  "clean_value ''__or__'' example_fields
     \<lparr>cd_field = Some ''__or__'', cd_operator = None, cd_value = Some ''junk'',
      cd_DELETE = None\<rparr>
     \<lparr>errors = Map.empty, value_required = True\<rparr>
   = Inr (None, \<lparr>errors = Map.empty, value_required = True\<rparr>)
   \<and> clean_value ''__or__'' example_fields
     \<lparr>cd_field = Some ''__or__'', cd_operator = None, cd_value = None, cd_DELETE = None\<rparr>
     \<lparr>errors = [''value'' \<mapsto> [''This field is required.'']], value_required = True\<rparr>
   = Inr (None,
          \<lparr>errors = [''value'' \<mapsto> [''This field is required.'']], value_required = True\<rparr>)
   \<and> clean_value ''__or__'' example_fields
     \<lparr>cd_field = None, cd_operator = Some IS_NULL, cd_value = Some ''junk'',
      cd_DELETE = None\<rparr>
     \<lparr>errors = Map.empty, value_required = True\<rparr>
   = Inr (None, \<lparr>errors = Map.empty, value_required = True\<rparr>)"
  by (simp add: clean_value_def)

text \<open>
  Claim C7, amended. When the cleaned data holds a field and an operator, neither of them
  empty, and the operator is a no-value operator or the field is the OR separator, then
  \<open>_clean_value\<close> returns the empty string, removes the value errors and makes the
  value optional, whatever value was supplied and whatever the field's conversion would
  say: the supplied value is neither reported nor converted. When the field or the
  operator is missing or empty, it returns \<open>None\<close> and leaves the form as it is.
\<close>

theorem clean_value_no_value:
  "(cd_field cleaned = Some field_path \<and> field_path \<noteq> []
      \<and> cd_operator cleaned = Some op \<and> op \<noteq> []
      \<and> (field_path = OR_SEPARATOR \<or> no_value_operator op) \<longrightarrow>
      (\<forall>gf v. clean_value OR_SEPARATOR gf (cleaned\<lparr>cd_value := v\<rparr>) self =
         Inr (Some [],
              self\<lparr>errors := (errors self)(''value'' := None), value_required := False\<rparr>))
      \<and> (\<forall>gf result self'. clean_value OR_SEPARATOR gf cleaned self = Inr (result, self')
             \<longrightarrow> result = Some [] \<and> errors self' ''value'' = None))
   \<and> (cd_field cleaned = None \<or> cd_field cleaned = Some []
      \<or> cd_operator cleaned = None \<or> cd_operator cleaned = Some [] \<longrightarrow>
      (\<forall>gf. clean_value OR_SEPARATOR gf cleaned self = Inr (None, self)))"
  by (auto simp: clean_value_def NO_VALUE_OPERATORS_def no_value_operator_def
      split: option.splits)

theorem clean_value_no_value_witness:
  "clean_value ''__or__'' example_fields
     \<lparr>cd_field = Some ''age'', cd_operator = Some ''isnull'', cd_value = Some ''junk'',
      cd_DELETE = None\<rparr>
     \<lparr>errors = [''value'' \<mapsto> [''no bueno'']], value_required = True\<rparr>
   = Inr (Some [], \<lparr>errors = Map.empty, value_required = False\<rparr>)"
  using clean_value_no_value [of
      "\<lparr>cd_field = Some ''age'', cd_operator = Some ''isnull'', cd_value = Some ''junk'',
        cd_DELETE = None\<rparr>"
      "''age''" "''isnull''" "''__or__''"
      "\<lparr>errors = [''value'' \<mapsto> [''no bueno'']], value_required = True\<rparr>",
      THEN conjunct1, THEN mp, THEN conjunct1, THEN spec, THEN spec,
      of example_fields "Some ''junk''"]
  by (simp add: no_value_operator_def IS_NULL_def)

section \<open>Access to a stored filter\<close>

lemma has_permission_eq:
  "has_permission a st has_perm super u obj =
     (if is_superuser u then True
      else
        (case obj of
           None \<Rightarrow> True
         | Some mf \<Rightarrow>
             if \<not> user_can_access_content_type has_perm u (content_type mf) then False
             else if same_user u (owner mf) then True
             else if owner_only a st then False
             else super a u obj))"
  by (cases a)
     (simp_all add: has_view_permission_def has_change_permission_def
        has_delete_permission_def user_has_permission_def split: option.splits)

text \<open>
  A counterexample to claim C3 as stated: a user who does not own the filter, with the
  owner-only toggles off and every permission on filters granted, but without view or
  change permission on the filtered model, is denied although the permission service
  grants.
\<close>

theorem has_permission_counterexample:
  "\<not> is_superuser staff \<and> \<not> same_user staff (owner customer_filter)
   \<and> \<not> owner_only View open_settings
   \<and> grant_all View staff (Some customer_filter)
   \<and> \<not> has_permission View open_settings filter_perms_only grant_all staff
         (Some customer_filter)"
  by (simp add: grant_all_def has_view_permission_def user_has_permission_def staff_def wile_def
      customer_filter_def customer_type_def
      open_settings_def filter_perms_only_def same_user_def getattr_def
      user_can_access_content_type_def get_permission_codename_def
      SETTING_MODEL_FILTERS_VIEW_OWNER_ONLY_def)

text \<open>
  Claim C3, amended. For a user who is not a superuser, an action among view, change and
  delete, and a stored filter: without view or change permission on the filter's target
  model the check denies; with it, the owner is granted, a user who is not the owner is
  denied when the action's owner-only toggle is on, whatever the permission service
  grants, and gets exactly the permission service's answer for that action when the
  toggle is off.
\<close>

theorem has_permission_policy:
  assumes "\<not> is_superuser u"
  shows "(same_user u (owner mf) \<and> user_can_access_content_type has_perm u (content_type mf)
            \<longrightarrow> has_permission a st has_perm super u (Some mf))
     \<and> (\<not> same_user u (owner mf) \<and> owner_only a st
            \<longrightarrow> \<not> has_permission a st has_perm super u (Some mf))
     \<and> (\<not> same_user u (owner mf) \<and> \<not> owner_only a st
          \<and> user_can_access_content_type has_perm u (content_type mf)
            \<longrightarrow> has_permission a st has_perm super u (Some mf) = super a u (Some mf))
     \<and> (\<not> user_can_access_content_type has_perm u (content_type mf)
            \<longrightarrow> \<not> has_permission a st has_perm super u (Some mf))"
  using assms by (simp add: has_permission_eq)

theorem has_permission_policy_witness:
  "has_permission Delete default_settings customer_perms (\<lambda>a u obj. False) wile
     (Some customer_filter)
   \<and> \<not> has_permission Change default_settings customer_perms (\<lambda>a u obj. True) staff
     (Some customer_filter)
   \<and> has_permission View open_settings customer_perms (\<lambda>a u obj. a = View) staff
     (Some customer_filter)"
proof -
  have users: "\<not> is_superuser wile" "\<not> is_superuser staff"
    by (simp_all add: wile_def staff_def)
  have access: "user_can_access_content_type customer_perms wile (content_type customer_filter)"
    "user_can_access_content_type customer_perms staff (content_type customer_filter)"
    by (simp_all add: user_can_access_content_type_def customer_perms_def
        customer_filter_def customer_type_def get_permission_codename_def)
  have owners: "same_user wile (owner customer_filter)"
    "\<not> same_user staff (owner customer_filter)"
    by (simp_all add: same_user_def wile_def staff_def customer_filter_def)
  have toggles: "owner_only Change default_settings" "\<not> owner_only View open_settings"
    by (simp_all add: getattr_def default_settings_def open_settings_def
        DEFAULT_MODEL_FILTERS_CHANGE_OWNER_ONLY_def
        SETTING_MODEL_FILTERS_VIEW_OWNER_ONLY_def)
  show ?thesis
    using has_permission_policy [OF users(1), where mf = customer_filter
        and has_perm = customer_perms and a = Delete and st = default_settings
        and super = "\<lambda>a u obj. False"]
      has_permission_policy [OF users(2), where mf = customer_filter
        and has_perm = customer_perms and a = Change and st = default_settings
        and super = "\<lambda>a u obj. True"]
      has_permission_policy [OF users(2), where mf = customer_filter
        and has_perm = customer_perms and a = View and st = open_settings
        and super = "\<lambda>a u obj. a = View"]
      access owners toggles
    by (simp del: has_permission.simps owner_only.simps)
qed

section \<open>The filters a user can enumerate\<close>

lemma for_user_filter:
  "for_user st has_perm g table self u =
     filter
       (\<lambda>f. if view_owner_only st then same_user (owner f) u
            else
              (case (if use_guardian st then g else None) of
                 Some objects_for_user \<Rightarrow>
                   f \<in> set table
                   \<and> (same_user (owner f) u
                        \<or> f \<in> set (objects_for_user u ''view_modelfilter'' table))
               | None \<Rightarrow>
                   same_user (owner f) u \<or> has_perm u ''model_filters.view_modelfilter''))
       self"
proof (cases "view_owner_only st")
  case True
  then show ?thesis by (simp add: for_user_def filter_owner_def)
next
  case False
  show ?thesis
  proof (cases "if use_guardian st then g else None")
    case None
    with False show ?thesis
      by (cases "has_perm u ''model_filters.view_modelfilter''")
         (simp_all add: for_user_def filter_owner_def)
  next
    case (Some objects_for_user)
    with False show ?thesis
      by (simp add: for_user_def filter_owner_def qs_and_def qs_or_def cong: conj_cong)
  qed
qed

text \<open>
  Claim C6. Of a queryset over the table of stored filters, a user enumerates exactly
  the own filters when the view-owner-only toggle is on, and otherwise the own filters
  together with those for which the user holds class-level or object-level view
  permission. Guardian's shortcut is the one of the model above, if it is there at all,
  and the permission service grants a superuser the class-level permission, as Django's
  does.
\<close>

theorem for_user_visible:
  assumes "set self \<subseteq> set table"
    and "g = None \<or> g = Some (guardian_get_objects_for_user has_perm object_perm)"
    and "is_superuser u \<longrightarrow> has_perm u ''model_filters.view_modelfilter''"
  shows "set (for_user st has_perm g table self u) =
     (if view_owner_only st then {f \<in> set self. same_user (owner f) u}
      else {f \<in> set self. same_user (owner f) u}
           \<union> {f \<in> set self. holds_view_permission st has_perm g object_perm u f})"
proof (cases "view_owner_only st")
  case True
  then show ?thesis by (simp add: for_user_filter)
next
  case False
  show ?thesis
  proof (cases "if use_guardian st then g else None")
    case None
    then have "\<not> (use_guardian st \<and> g \<noteq> None)" by (auto split: if_splits)
    with False None show ?thesis
      by (auto simp: for_user_filter holds_view_permission_def)
  next
    case (Some objects_for_user)
    then have on: "use_guardian st" "g = Some objects_for_user" by (auto split: if_splits)
    with assms(2) have
      guardian: "objects_for_user = guardian_get_objects_for_user has_perm object_perm"
      by simp
    have member: "f \<in> set (objects_for_user u ''view_modelfilter'' table) \<longleftrightarrow>
        f \<in> set table \<and> (has_perm u ''model_filters.view_modelfilter''
          \<or> object_perm u ''view_modelfilter'' f)" for f
      using assms(3) by (auto simp: guardian guardian_get_objects_for_user_def)
    from False on assms(1) show ?thesis
      by (auto simp: for_user_filter holds_view_permission_def member)
  qed
qed

theorem for_user_visible_witness:
  "customer_filter \<in> set (for_user guardian_settings customer_perms
       (Some (guardian_get_objects_for_user customer_perms staff_grant))
       [customer_filter, staff_filter] [customer_filter, staff_filter] staff)
   \<and> staff_filter \<notin> set (for_user guardian_settings customer_perms
       (Some (guardian_get_objects_for_user customer_perms staff_grant))
       [customer_filter, staff_filter] [customer_filter, staff_filter] wile)
   \<and> set (for_user default_settings customer_perms None
       [customer_filter, staff_filter] [customer_filter, staff_filter] wile)
     = {customer_filter}"
proof -
  have users: "is_superuser staff \<longrightarrow> customer_perms staff ''model_filters.view_modelfilter''"
    "is_superuser wile \<longrightarrow> customer_perms wile ''model_filters.view_modelfilter''"
    by (simp_all add: staff_def wile_def)
  have toggles: "\<not> view_owner_only guardian_settings" "use_guardian guardian_settings"
    "view_owner_only default_settings"
    by (simp_all add: view_owner_only_def use_guardian_def getattr_def guardian_settings_def
        default_settings_def SETTING_MODEL_FILTERS_VIEW_OWNER_ONLY_def
        SETTING_MODEL_FILTERS_USE_GUARDIAN_def DEFAULT_MODEL_FILTERS_VIEW_OWNER_ONLY_def)
  have owners: "same_user (owner customer_filter) wile" "\<not> same_user (owner customer_filter) staff"
    "same_user (owner staff_filter) staff" "\<not> same_user (owner staff_filter) wile"
    by (simp_all add: same_user_def customer_filter_def staff_filter_def wile_def staff_def)
  have grants: "staff_grant staff ''view_modelfilter'' customer_filter"
    "\<not> staff_grant wile ''view_modelfilter'' staff_filter"
    "\<not> customer_perms wile ''model_filters.view_modelfilter''"
    by (simp_all add: staff_grant_def staff_def wile_def customer_filter_def
        customer_perms_def)
  have different: "staff_filter \<noteq> customer_filter"
    by (simp add: staff_filter_def customer_filter_def)
  note visible = for_user_visible [where self = "[customer_filter, staff_filter]"
      and table = "[customer_filter, staff_filter]" and has_perm = customer_perms
      and object_perm = staff_grant]
  show ?thesis
    using visible [where u = staff and st = guardian_settings
        and g = "Some (guardian_get_objects_for_user customer_perms staff_grant)"]
      visible [where u = wile and st = guardian_settings
        and g = "Some (guardian_get_objects_for_user customer_perms staff_grant)"]
      visible [where u = wile and st = default_settings and g = None]
      users toggles owners grants different
    by (auto simp: holds_view_permission_def)
qed

section \<open>Ephemeral filters\<close>

lemma for_user_subset: "set (for_user st has_perm g table self u) \<subseteq> set self"
  by (simp add: for_user_filter)

lemma for_user_owner:
  assumes "mf \<in> set table" "same_user (owner mf) u"
  shows "mf \<in> set (for_user st has_perm g table table u)"
  using assms by (simp add: for_user_filter split: option.splits)

lemma for_user_sublist:
  "\<exists>V. for_user st has_perm g table self u = filter V self"
  using for_user_filter [of st has_perm g table self u] by blast

lemma filter_unique:
  assumes "distinct (map pk table)" "mf \<in> set table" "P mf"
    and "\<And>f. P f \<Longrightarrow> pk f = pk mf"
  shows "filter P table = [mf]"
  using assms(1,2)
proof (induction table)
  case Nil
  then show ?case by simp
next
  case (Cons a table)
  show ?case
  proof (cases "a = mf")
    case True
    have "\<not> P f" if "f \<in> set table" for f
    proof
      assume "P f"
      then have "pk f = pk mf" by (rule assms(4))
      with that Cons.prems(1) True show False by (auto simp: image_iff)
    qed
    then have "filter P table = []" by (simp add: filter_empty_conv)
    with True assms(3) show ?thesis by simp
  next
    case False
    with Cons.prems have mem: "mf \<in> set table" by simp
    have "\<not> P a"
    proof
      assume "P a"
      then have "pk a = pk mf" by (rule assms(4))
      with mem Cons.prems(1) show False by (auto simp: image_iff)
    qed
    with Cons.IH mem Cons.prems(1) show ?thesis by simp
  qed
qed

lemma first_found:
  assumes "distinct (map pk table)" "mf \<in> set table" "same_user (owner mf) u"
    and "same_content_type (content_type mf) ct"
  shows "first (filter (\<lambda>f. pk f = pk mf \<and> same_content_type (content_type f) ct)
            (for_user st has_perm g table table u)) = Some mf"
proof -
  obtain V where sub: "for_user st has_perm g table table u = filter V table"
    using for_user_sublist by blast
  from for_user_owner [OF assms(2,3), of st has_perm g] sub have "V mf" by simp
  have "filter (\<lambda>f. V f \<and> pk f = pk mf \<and> same_content_type (content_type f) ct) table = [mf]"
    by (rule filter_unique [OF assms(1,2)]) (simp_all add: \<open>V mf\<close> assms(4))
  then show ?thesis by (simp add: sub first_def conj_commute)
qed

lemma first_gone:
  "first (filter (\<lambda>f. pk f = pk mf \<and> same_content_type (content_type f) ct)
     (for_user st has_perm g (delete mf table) (delete mf table) u)) = None"
proof -
  have "filter (\<lambda>f. pk f = pk mf \<and> same_content_type (content_type f) ct)
     (for_user st has_perm g (delete mf table) (delete mf table) u) = []"
    using for_user_subset [of st has_perm g "delete mf table" "delete mf table" u]
    by (auto simp: filter_empty_conv delete_def)
  then show ?thesis by (simp add: first_def)
qed

text \<open>
  A counterexample to claim C4 as stated: the owner applies the ephemeral filter 5 to
  the two customers; the first application returns the one matching row and deletes
  the filter, the second application with the same parameter is no failure: it returns
  the whole listing, unfiltered.
\<close>

theorem queryset_second_apply_counterexample:
  "queryset customer_env customer_list_filter [customer_filter, staff_filter] wile_request
     [''Wile E. Coyote'', ''Road Runner'']
   = Inr ([''Wile E. Coyote''], [staff_filter], wile_request)
   \<and> queryset customer_env customer_list_filter [staff_filter] wile_request
     [''Wile E. Coyote'', ''Road Runner'']
   = Inr ([''Wile E. Coyote'', ''Road Runner''], [staff_filter], wile_request)"
  by (simp add: queryset_def customer_env_def customer_list_filter_def example_to_pk_def
      digits_to_int_def for_user_def view_owner_only_def getattr_def default_settings_def
      DEFAULT_MODEL_FILTERS_VIEW_OWNER_ONLY_def filter_owner_def same_user_def
      same_content_type_def customer_filter_def staff_filter_def wile_request_def
      wile_def staff_def customer_type_def first_def delete_def
      build_query_filter_def example_clause_def make_query_filter_eq
      build_query_params_def example_fields_def q_and_simps name_holds_def
      IS_NULL_def IS_EMPTY_def IS_TRUE_def IS_FALSE_def)

text \<open>
  Claim C4, amended. When the owner of an ephemeral filter applies it by its id to a
  listing of the filter's content type, and the filter compiles, the first application
  returns the rows that match the compiled expression, without duplicates, and deletes
  the filter; a second application with the same id finds no filter, raises nothing and
  returns the listing as it is, unfiltered.
\<close>

theorem queryset_ephemeral_once:
  assumes "distinct (map pk table)" and "mf \<in> set table"
    and "same_user (owner mf) (user rq)" and "ephemeral mf"
    and "param_value self = Some v" and "v \<noteq> []" and "env_to_pk env v = Inr (pk mf)"
    and "same_content_type (content_type mf) (lf_content_type self)"
    and "build_query_filter (env_get_fields_from_path env) (env_OR_SEPARATOR env) mf
           = Inr query"
  shows "queryset env self table rq rows =
           Inr (remdups (filter (\<lambda>r. matches (env_holds env r) query) rows),
                delete mf table, rq)
     \<and> mf \<notin> set (delete mf table)
     \<and> queryset env self (delete mf table) rq rows = Inr (rows, delete mf table, rq)"
proof (intro conjI)
  show "queryset env self table rq rows =
      Inr (remdups (filter (\<lambda>r. matches (env_holds env r) query) rows), delete mf table, rq)"
    using assms(3-7,9) first_found [OF assms(1,2,3,8)]
    by (simp add: queryset_def)
  show "mf \<notin> set (delete mf table)" by (simp add: delete_def)
  show "queryset env self (delete mf table) rq rows = Inr (rows, delete mf table, rq)"
    using assms(5-7) first_gone by (simp add: queryset_def)
qed

theorem queryset_ephemeral_once_witness:
  "queryset customer_env customer_list_filter [staff_filter, customer_filter] wile_request
     [''Road Runner'', ''Wile E. Coyote'', ''Wile E. Coyote'']
   = Inr ([''Wile E. Coyote''], [staff_filter], wile_request)"
proof -
  have compiled: "build_query_filter (env_get_fields_from_path customer_env)
      (env_OR_SEPARATOR customer_env) customer_filter
      = Inr (Q_leaf ''name__exact'' (PStr ''Wile E. Coyote''))"
    unfolding customer_env_def build_query_filter_def customer_filter_def
    by (simp add: example_clause_def make_query_filter_eq build_query_params_def
        example_fields_def q_and_simps IS_NULL_def IS_EMPTY_def IS_TRUE_def IS_FALSE_def)
  have "queryset customer_env customer_list_filter [staff_filter, customer_filter]
      wile_request [''Road Runner'', ''Wile E. Coyote'', ''Wile E. Coyote'']
    = Inr (remdups (filter (\<lambda>r. matches (env_holds customer_env r)
              (Q_leaf ''name__exact'' (PStr ''Wile E. Coyote'')))
            [''Road Runner'', ''Wile E. Coyote'', ''Wile E. Coyote'']),
           delete customer_filter [staff_filter, customer_filter], wile_request)"
    by (rule queryset_ephemeral_once
          [where v = "''5''", OF _ _ _ _ _ _ _ _ compiled, THEN conjunct1])
       (simp_all add: customer_filter_def staff_filter_def wile_request_def
          same_user_def customer_list_filter_def customer_env_def example_to_pk_def
          digits_to_int_def same_content_type_def)
  then show ?thesis
    by (simp add: customer_env_def name_holds_def delete_def customer_filter_def
        staff_filter_def)
qed

section \<open>Negation\<close>

lemma make_query_filter_params:
  "build_query_params gf f = Inr p \<Longrightarrow>
     make_query_filter gf f = Inr (if negate f then Q_not (Q_kwargs p) else Q_kwargs p)"
  by (cases p) (simp add: make_query_filter_eq Q_kwargs_def)

lemma split_groups_pair:
  assumes "field s = sep" "field A \<noteq> sep" "field B \<noteq> sep"
  shows "split_groups sep [A, s, B] = [[A], [B]]"
  using assms by simp

text \<open>
  Claim C8. Let the lookup of every clause that is not the separator be \<open>p f\<close>. Then the
  condition of a clause is its own lookup, inverted exactly when that clause has
  \<open>negate\<close> set; with no empty group the compiled expression matches a row iff in some
  group every clause's lookup holds, or fails where the clause is negated; and
  \<open>[A(negate), OR, B]\<close> compiles to \<open>(~A) | B\<close>, which is another expression
  than \<open>~(A | B)\<close> and differs from it on every row that satisfies \<open>B\<close>.
\<close>

theorem negate_inverts_single_clause:
  assumes "\<forall>f\<in>set (mf_fields mf). field f \<noteq> OR_SEPARATOR \<longrightarrow>
             build_query_params gf f = Inr (p f)"
  shows "(\<forall>f\<in>set (mf_fields mf). field f \<noteq> OR_SEPARATOR \<longrightarrow>
            make_query_filter gf f =
              Inr (if negate f then q_invert (Q_kwargs (p f)) else Q_kwargs (p f)))
     \<and> ([] \<notin> set (split_groups OR_SEPARATOR (mf_fields mf)) \<longrightarrow>
          (\<exists>compiled. build_query_filter gf OR_SEPARATOR mf = Inr compiled
             \<and> (matches h compiled \<longleftrightarrow>
                  (\<exists>g\<in>set (split_groups OR_SEPARATOR (mf_fields mf)).
                     \<forall>f\<in>set g. matches h (Q_kwargs (p f)) \<noteq> negate f))))
     \<and> (\<forall>A s B.
          mf_fields mf = [A, s, B] \<and> negate A \<and> \<not> negate B
          \<and> field s = OR_SEPARATOR \<and> field A \<noteq> OR_SEPARATOR \<and> field B \<noteq> OR_SEPARATOR
          \<longrightarrow>
          build_query_filter gf OR_SEPARATOR mf =
            Inr (Q_or (Q_not (Q_kwargs (p A))) (Q_kwargs (p B)))
          \<and> build_query_filter gf OR_SEPARATOR mf \<noteq>
              Inr (q_invert (q_or (Q_kwargs (p A)) (Q_kwargs (p B))))
          \<and> (matches h (Q_kwargs (p B)) \<longrightarrow>
               matches h (Q_or (Q_not (Q_kwargs (p A))) (Q_kwargs (p B)))
               \<and> \<not> matches h (q_invert (q_or (Q_kwargs (p A)) (Q_kwargs (p B))))))"
proof -
  let ?fs = "mf_fields mf"
  let ?groups = "split_groups OR_SEPARATOR ?fs"
  let ?c = "\<lambda>f. if negate f then Q_not (Q_kwargs (p f)) else Q_kwargs (p f)"
  have conditions: "\<forall>f\<in>set ?fs. field f \<noteq> OR_SEPARATOR \<longrightarrow> make_query_filter gf f = Inr (?c f)"
    using assms by (simp add: make_query_filter_params)
  have compiled: "build_query_filter gf OR_SEPARATOR mf =
      Inr (or_all (map (\<lambda>g. and_all (map ?c g)) ?groups))"
    by (rule build_query_filter_groups [OF conditions])
  have clause: "matches h (?c f) \<longleftrightarrow> (matches h (Q_kwargs (p f)) \<noteq> negate f)" for f
    by simp
  have semantics: "\<exists>compiled. build_query_filter gf OR_SEPARATOR mf = Inr compiled
      \<and> (matches h compiled \<longleftrightarrow>
           (\<exists>g\<in>set ?groups. \<forall>f\<in>set g. matches h (Q_kwargs (p f)) \<noteq> negate f))"
    if "[] \<notin> set ?groups"
  proof -
    have "matches h (or_all (map (\<lambda>g. and_all (map ?c g)) ?groups)) \<longleftrightarrow>
        (\<exists>g\<in>set ?groups. \<forall>f\<in>set g. matches h (?c f))"
      by (rule compiled_matches [OF conditions that])
    also have "\<dots> \<longleftrightarrow> (\<exists>g\<in>set ?groups. \<forall>f\<in>set g. matches h (Q_kwargs (p f)) \<noteq> negate f)"
      unfolding clause ..
    finally show ?thesis using compiled by blast
  qed
  have example: "build_query_filter gf OR_SEPARATOR mf =
        Inr (Q_or (Q_not (Q_kwargs (p A))) (Q_kwargs (p B)))
      \<and> build_query_filter gf OR_SEPARATOR mf \<noteq>
          Inr (q_invert (q_or (Q_kwargs (p A)) (Q_kwargs (p B))))
      \<and> (matches h (Q_kwargs (p B)) \<longrightarrow>
           matches h (Q_or (Q_not (Q_kwargs (p A))) (Q_kwargs (p B)))
           \<and> \<not> matches h (q_invert (q_or (Q_kwargs (p A)) (Q_kwargs (p B)))))"
    if fs: "?fs = [A, s, B]" and neg: "negate A" "\<not> negate B"
      and sep: "field s = OR_SEPARATOR" "field A \<noteq> OR_SEPARATOR" "field B \<noteq> OR_SEPARATOR"
    for A s B
  proof -
    have groups: "?groups = [[A], [B]]"
      unfolding fs by (rule split_groups_pair [OF sep])
    have result: "build_query_filter gf OR_SEPARATOR mf =
        Inr (Q_or (Q_not (Q_kwargs (p A))) (Q_kwargs (p B)))"
      using compiled neg
      by (simp add: groups and_all_def q_and_simps q_or_simps Q_kwargs_def)
    have other: "q_invert (q_or (Q_kwargs (p A)) (Q_kwargs (p B))) =
        Q_not (Q_or (Q_kwargs (p A)) (Q_kwargs (p B)))"
      by (simp add: q_invert_def q_or_simps Q_kwargs_def)
    show ?thesis unfolding result other by simp
  qed
  show ?thesis
  proof (intro conjI)
    show "\<forall>f\<in>set ?fs. field f \<noteq> OR_SEPARATOR \<longrightarrow>
        make_query_filter gf f =
          Inr (if negate f then q_invert (Q_kwargs (p f)) else Q_kwargs (p f))"
      using conditions by (simp add: q_invert_def)
    show "[] \<notin> set ?groups \<longrightarrow>
        (\<exists>compiled. build_query_filter gf OR_SEPARATOR mf = Inr compiled
           \<and> (matches h compiled \<longleftrightarrow>
                (\<exists>g\<in>set ?groups. \<forall>f\<in>set g. matches h (Q_kwargs (p f)) \<noteq> negate f)))"
      using semantics by blast
    show "\<forall>A s B.
          ?fs = [A, s, B] \<and> negate A \<and> \<not> negate B
          \<and> field s = OR_SEPARATOR \<and> field A \<noteq> OR_SEPARATOR \<and> field B \<noteq> OR_SEPARATOR
          \<longrightarrow>
          build_query_filter gf OR_SEPARATOR mf =
            Inr (Q_or (Q_not (Q_kwargs (p A))) (Q_kwargs (p B)))
          \<and> build_query_filter gf OR_SEPARATOR mf \<noteq>
              Inr (q_invert (q_or (Q_kwargs (p A)) (Q_kwargs (p B))))
          \<and> (matches h (Q_kwargs (p B)) \<longrightarrow>
               matches h (Q_or (Q_not (Q_kwargs (p A))) (Q_kwargs (p B)))
               \<and> \<not> matches h (q_invert (q_or (Q_kwargs (p A)) (Q_kwargs (p B)))))"
      using example by blast
  qed
qed

theorem negate_inverts_single_clause_witness:
  "build_query_filter example_fields ''__or__''
     (example_filter
       [example_clause ''name'' ''exact'' ''Tornado Seeds'' True,
        example_clause ''__or__'' ''exact'' [] False,
        example_clause ''code'' ''exact'' ''TS'' False])
   = Inr (Q_or (Q_not (Q_leaf ''name__exact'' (PStr ''Tornado Seeds'')))
               (Q_leaf ''code__exact'' (PStr ''TS'')))
   \<and> build_query_filter example_fields ''__or__''
     (example_filter
       [example_clause ''name'' ''exact'' ''Tornado Seeds'' True,
        example_clause ''__or__'' ''exact'' [] False,
        example_clause ''code'' ''exact'' ''TS'' False])
   \<noteq> Inr (Q_not (Q_or (Q_leaf ''name__exact'' (PStr ''Tornado Seeds''))
                      (Q_leaf ''code__exact'' (PStr ''TS''))))"
proof -
  let ?A = "example_clause ''name'' ''exact'' ''Tornado Seeds'' True"
  let ?s = "example_clause ''__or__'' ''exact'' [] False"
  let ?B = "example_clause ''code'' ''exact'' ''TS'' False"
  let ?mf = "example_filter [?A, ?s, ?B]"
  have params: "\<forall>f\<in>set (mf_fields ?mf). field f \<noteq> ''__or__'' \<longrightarrow>
      build_query_params example_fields f = Inr (params_of example_fields f)"
    by (simp add: example_filter_def example_clause_def params_of_def
        build_query_params_def example_fields_def
        IS_NULL_def IS_EMPTY_def IS_TRUE_def IS_FALSE_def)
  have shape: "mf_fields ?mf = [?A, ?s, ?B] \<and> negate ?A \<and> \<not> negate ?B
      \<and> field ?s = ''__or__'' \<and> field ?A \<noteq> ''__or__'' \<and> field ?B \<noteq> ''__or__''"
    by (simp add: example_filter_def example_clause_def)
  have "build_query_filter example_fields ''__or__'' ?mf =
      Inr (Q_or (Q_not (Q_kwargs (params_of example_fields ?A)))
                (Q_kwargs (params_of example_fields ?B)))"
    using negate_inverts_single_clause [OF params, THEN conjunct2, THEN conjunct2,
        THEN spec, THEN spec, THEN spec, THEN mp, OF shape]
    by (rule conjunct1)
  then show ?thesis
    by (simp add: example_clause_def params_of_def Q_kwargs_def
        build_query_params_def example_fields_def
        IS_NULL_def IS_EMPTY_def IS_TRUE_def IS_FALSE_def)
qed

section \<open>Totality of the compiler\<close>

lemma condition_of_compilable:
  "compilable gf f \<Longrightarrow> make_query_filter gf f = Inr (condition_of gf f)"
  using make_query_filter_compilable [of gf f]
  by (cases "make_query_filter gf f") (simp_all add: condition_of_def)

lemma is_empty_group:
  assumes "\<forall>f\<in>set (mf_fields mf). field f \<noteq> sep \<longrightarrow> make_query_filter gf f = Inr (c f)"
    and "g \<in> set (split_groups sep (mf_fields mf))"
  shows "is_empty (and_all (map c g)) \<longleftrightarrow> g = []"
proof (cases g)
  case Nil
  then show ?thesis by (simp add: and_all_def)
next
  case (Cons f fs)
  then have "f \<in> set g" by simp
  from compiled_condition_not_empty [OF assms this] Cons show ?thesis
    by (simp add: is_empty_and_all)
qed

text \<open>
  The error of a compilation that raises is the error of the first clause, not a
  separator, that does not compile; the clauses before it compile.
\<close>

lemma build_loop_error:
  assumes "build_loop gf sep fs qa qs = Inl e"
  shows "\<exists>before f after. fs = before @ f # after
     \<and> (\<forall>x\<in>set before. field x \<noteq> sep \<longrightarrow> compilable gf x)
     \<and> field f \<noteq> sep \<and> make_query_filter gf f = Inl e"
  using assms
proof (induction fs arbitrary: qa qs)
  case Nil
  then show ?case by simp
next
  case (Cons a fs)
  show ?case
  proof (cases "field a = sep")
    case True
    with Cons.prems have "build_loop gf sep fs Q_empty (qs @ [qa]) = Inl e" by simp
    from Cons.IH [OF this] obtain before f after where
      "fs = before @ f # after"
      "\<forall>x\<in>set before. field x \<noteq> sep \<longrightarrow> compilable gf x"
      "field f \<noteq> sep" "make_query_filter gf f = Inl e"
      by blast
    with True show ?thesis
      by (intro exI [of _ "a # before"] exI [of _ f] exI [of _ after]) simp
  next
    case False
    show ?thesis
    proof (cases "make_query_filter gf a")
      case (Inl e')
      with False Cons.prems have "e' = e" by simp
      with Inl False show ?thesis
        by (intro exI [of _ "[]"] exI [of _ a] exI [of _ fs]) simp
    next
      case (Inr ca)
      then have ok: "compilable gf a"
        using make_query_filter_compilable [of gf a] by simp
      from Inr False Cons.prems have "build_loop gf sep fs (q_and qa ca) qs = Inl e" by simp
      from Cons.IH [OF this] obtain before f after where
        "fs = before @ f # after"
        "\<forall>x\<in>set before. field x \<noteq> sep \<longrightarrow> compilable gf x"
        "field f \<noteq> sep" "make_query_filter gf f = Inl e"
        by blast
      with ok show ?thesis
        by (intro exI [of _ "a # before"] exI [of _ f] exI [of _ after]) simp
    qed
  qed
qed

lemma build_query_filter_error:
  assumes "build_query_filter gf sep mf = Inl e"
  shows "build_loop gf sep (mf_fields mf) Q_empty [] = Inl e"
proof (cases "build_loop gf sep (mf_fields mf) Q_empty []")
  case (Inl e')
  with assms show ?thesis by (simp add: build_query_filter_def)
next
  case (Inr r)
  obtain qa qs where "r = (qa, qs)" by (cases r)
  with Inr assms show ?thesis
    by (cases "qs @ [qa]") (simp_all add: build_query_filter_def split: if_splits)
qed

lemma make_query_filter_error:
  "make_query_filter gf f = Inl e \<longleftrightarrow>
     \<not> no_value_operator (operator f)
     \<and> (gf (field f) = Inl e
          \<or> (\<exists>model_field. gf (field f) = Inr model_field
                \<and> to_python model_field (raw_value f) = Inl e))"
  by (cases "gf (field f)")
     (auto simp: make_query_filter_eq build_query_params_def no_value_operator_def
        split: sum.splits)

text \<open>
  A counterexample to claim C10 as stated: a clause whose value the field cannot convert
  makes the compiler raise; and the empty group of \<open>[A, OR, OR, B]\<close> is skipped by
  \<open>|\<close>, so that the result is \<open>A | B\<close> and rejects a row that satisfies neither.
\<close>

theorem build_query_filter_total_counterexample:
  "build_query_filter example_fields ''__or__''
     (example_filter [example_clause ''age'' ''exact'' ''Road Runner'' False])
   = Inl (ValidationError
       (CHR 0x27 # ''Road Runner'' @ CHR 0x27 # '' value must be an integer.''))
   \<and> build_query_filter example_fields ''__or__''
     (example_filter
       [example_clause ''name'' ''exact'' ''A'' False,
        example_clause ''__or__'' ''exact'' [] False,
        example_clause ''__or__'' ''exact'' [] False,
        example_clause ''code'' ''exact'' ''B'' False])
   = Inr (Q_or (Q_leaf ''name__exact'' (PStr ''A'')) (Q_leaf ''code__exact'' (PStr ''B'')))
   \<and> \<not> matches (\<lambda>key operand. False)
       (Q_or (Q_leaf ''name__exact'' (PStr ''A'')) (Q_leaf ''code__exact'' (PStr ''B'')))"
  by (simp add: build_query_filter_def example_filter_def example_clause_def
      make_query_filter_eq build_query_params_def example_fields_def
      IS_NULL_def IS_EMPTY_def IS_TRUE_def IS_FALSE_def
      IntegerField_to_python_def q_and_simps q_or_simps)

text \<open>
  Claim C10, amended. The compiler returns an expression exactly when every clause that
  is not a separator is compilable (it has a no-value operator, or its field resolves
  and its value converts); where the separators stand never makes it raise. The empty
  sequence, and a sequence of separators only, yield the empty \<open>Q()\<close>, which matches
  every row. An empty group is the empty \<open>Q()\<close> too and \<open>|\<close> skips it: the result
  matches a row iff all groups are empty or some group that is not empty has all its
  conditions matching. When the compiler raises, it raises the error of the first
  clause that is not compilable: the error of the resolver on the clause's field, or
  the error of the field's conversion on the clause's value.
\<close>

theorem build_query_filter_total_on_compilable:
  "((\<exists>compiled. build_query_filter gf OR_SEPARATOR mf = Inr compiled) \<longleftrightarrow>
      (\<forall>f\<in>set (mf_fields mf). field f \<noteq> OR_SEPARATOR \<longrightarrow> compilable gf f))
   \<and> ((\<forall>f\<in>set (mf_fields mf). field f = OR_SEPARATOR) \<longrightarrow>
        build_query_filter gf OR_SEPARATOR mf = Inr Q_empty)
   \<and> matches h (Q_empty :: 'v q)
   \<and> ((\<forall>f\<in>set (mf_fields mf). field f \<noteq> OR_SEPARATOR \<longrightarrow> compilable gf f) \<longrightarrow>
        (\<exists>compiled. build_query_filter gf OR_SEPARATOR mf = Inr compiled
           \<and> (matches h compiled \<longleftrightarrow>
                (\<forall>g\<in>set (split_groups OR_SEPARATOR (mf_fields mf)). g = [])
                \<or> (\<exists>g\<in>set (split_groups OR_SEPARATOR (mf_fields mf)).
                      g \<noteq> [] \<and> (\<forall>f\<in>set g. matches h (condition_of gf f))))))
   \<and> (\<forall>e. build_query_filter gf OR_SEPARATOR mf = Inl e \<longrightarrow>
        (\<exists>before f after.
           mf_fields mf = before @ f # after
           \<and> (\<forall>x\<in>set before. field x \<noteq> OR_SEPARATOR \<longrightarrow> compilable gf x)
           \<and> field f \<noteq> OR_SEPARATOR \<and> \<not> compilable gf f
           \<and> \<not> no_value_operator (operator f)
           \<and> (gf (field f) = Inl e
                \<or> (\<exists>model_field. gf (field f) = Inr model_field
                      \<and> to_python model_field (raw_value f) = Inl e))))"
proof -
  let ?fs = "mf_fields mf"
  let ?groups = "split_groups OR_SEPARATOR ?fs"
  let ?c = "condition_of gf"
  let ?result = "or_all (map (\<lambda>g. and_all (map ?c g)) ?groups)"
  have success: "build_query_filter gf OR_SEPARATOR mf = Inr ?result"
    and conditions: "\<forall>f\<in>set ?fs. field f \<noteq> OR_SEPARATOR \<longrightarrow> make_query_filter gf f = Inr (?c f)"
    if "\<forall>f\<in>set ?fs. field f \<noteq> OR_SEPARATOR \<longrightarrow> compilable gf f"
  proof -
    show c: "\<forall>f\<in>set ?fs. field f \<noteq> OR_SEPARATOR \<longrightarrow> make_query_filter gf f = Inr (?c f)"
      using that by (simp add: condition_of_compilable)
    show "build_query_filter gf OR_SEPARATOR mf = Inr ?result"
      by (rule build_query_filter_groups [OF c])
  qed
  have failure: "isl (build_query_filter gf OR_SEPARATOR mf)"
    if "f \<in> set ?fs" "field f \<noteq> OR_SEPARATOR" "\<not> compilable gf f" for f
  proof -
    from that(3) have "isl (make_query_filter gf f)"
      using make_query_filter_compilable [of gf f] by blast
    with that(1,2) show ?thesis by (rule build_query_filter_failure)
  qed
  have total: "(\<exists>compiled. build_query_filter gf OR_SEPARATOR mf = Inr compiled) \<longleftrightarrow>
      (\<forall>f\<in>set ?fs. field f \<noteq> OR_SEPARATOR \<longrightarrow> compilable gf f)"
  proof
    assume "\<exists>compiled. build_query_filter gf OR_SEPARATOR mf = Inr compiled"
    then have "\<not> isl (build_query_filter gf OR_SEPARATOR mf)" by auto
    with failure show "\<forall>f\<in>set ?fs. field f \<noteq> OR_SEPARATOR \<longrightarrow> compilable gf f" by blast
  next
    assume "\<forall>f\<in>set ?fs. field f \<noteq> OR_SEPARATOR \<longrightarrow> compilable gf f"
    from success [OF this] show "\<exists>compiled. build_query_filter gf OR_SEPARATOR mf = Inr compiled"
      by blast
  qed
  have separators: "build_query_filter gf OR_SEPARATOR mf = Inr Q_empty"
    if only: "\<forall>f\<in>set ?fs. field f = OR_SEPARATOR"
  proof -
    from only have ok: "\<forall>f\<in>set ?fs. field f \<noteq> OR_SEPARATOR \<longrightarrow> compilable gf f" by simp
    have "g = []" if "g \<in> set ?groups" for g
    proof (cases g)
      case Nil
      then show ?thesis .
    next
      case (Cons f fs)
      then have "f \<in> set g" by simp
      from set_split_groups [OF that this] only show ?thesis by blast
    qed
    then have "\<forall>x\<in>set (map (\<lambda>g. and_all (map ?c g)) ?groups). is_empty x"
      by (fastforce simp: and_all_def)
    then have "is_empty ?result"
      by (cases "map (\<lambda>g. and_all (map ?c g)) ?groups") (auto simp: is_empty_foldl_q_or)
    with success [OF ok] show ?thesis by (simp add: is_empty_iff)
  qed
  have semantics: "\<exists>compiled. build_query_filter gf OR_SEPARATOR mf = Inr compiled
      \<and> (matches h compiled \<longleftrightarrow>
           (\<forall>g\<in>set ?groups. g = [])
           \<or> (\<exists>g\<in>set ?groups. g \<noteq> [] \<and> (\<forall>f\<in>set g. matches h (?c f))))"
    if ok: "\<forall>f\<in>set ?fs. field f \<noteq> OR_SEPARATOR \<longrightarrow> compilable gf f"
  proof -
    note empty = is_empty_group [OF conditions [OF ok]]
    have "matches h ?result \<longleftrightarrow>
        (\<forall>g\<in>set ?groups. is_empty (and_all (map ?c g)))
        \<or> (\<exists>g\<in>set ?groups. \<not> is_empty (and_all (map ?c g)) \<and> matches h (and_all (map ?c g)))"
      by (simp add: matches_or_all)
    also have "\<dots> \<longleftrightarrow> (\<forall>g\<in>set ?groups. g = [])
        \<or> (\<exists>g\<in>set ?groups. g \<noteq> [] \<and> (\<forall>f\<in>set g. matches h (?c f)))"
      using empty by (simp add: matches_and_all cong: ball_cong bex_cong)
    finally show ?thesis using success [OF ok] by blast
  qed
  have raised: "\<exists>before f after.
         ?fs = before @ f # after
         \<and> (\<forall>x\<in>set before. field x \<noteq> OR_SEPARATOR \<longrightarrow> compilable gf x)
         \<and> field f \<noteq> OR_SEPARATOR \<and> \<not> compilable gf f
         \<and> \<not> no_value_operator (operator f)
         \<and> (gf (field f) = Inl e
              \<or> (\<exists>model_field. gf (field f) = Inr model_field
                    \<and> to_python model_field (raw_value f) = Inl e))"
    if "build_query_filter gf OR_SEPARATOR mf = Inl e" for e
  proof -
    from build_loop_error [OF build_query_filter_error [OF that]] obtain before f after
      where split: "?fs = before @ f # after"
        and before: "\<forall>x\<in>set before. field x \<noteq> OR_SEPARATOR \<longrightarrow> compilable gf x"
        and f: "field f \<noteq> OR_SEPARATOR" "make_query_filter gf f = Inl e"
      by blast
    from f(2) have "\<not> compilable gf f"
      using make_query_filter_compilable [of gf f] by simp
    moreover from f(2) have "\<not> no_value_operator (operator f)
        \<and> (gf (field f) = Inl e
             \<or> (\<exists>model_field. gf (field f) = Inr model_field
                   \<and> to_python model_field (raw_value f) = Inl e))"
      using make_query_filter_error [of gf f e] by blast
    ultimately show ?thesis using split before f(1) by blast
  qed
  show ?thesis
  proof (intro conjI)
    show "\<forall>e. build_query_filter gf OR_SEPARATOR mf = Inl e \<longrightarrow>
        (\<exists>before f after.
           ?fs = before @ f # after
           \<and> (\<forall>x\<in>set before. field x \<noteq> OR_SEPARATOR \<longrightarrow> compilable gf x)
           \<and> field f \<noteq> OR_SEPARATOR \<and> \<not> compilable gf f
           \<and> \<not> no_value_operator (operator f)
           \<and> (gf (field f) = Inl e
                \<or> (\<exists>model_field. gf (field f) = Inr model_field
                      \<and> to_python model_field (raw_value f) = Inl e)))"
      using raised by blast
    show "(\<exists>compiled. build_query_filter gf OR_SEPARATOR mf = Inr compiled) \<longleftrightarrow>
        (\<forall>f\<in>set ?fs. field f \<noteq> OR_SEPARATOR \<longrightarrow> compilable gf f)"
      by (rule total)
    show "(\<forall>f\<in>set ?fs. field f = OR_SEPARATOR) \<longrightarrow>
        build_query_filter gf OR_SEPARATOR mf = Inr Q_empty"
      using separators by blast
    show "matches h (Q_empty :: 'v q)" by simp
    show "(\<forall>f\<in>set ?fs. field f \<noteq> OR_SEPARATOR \<longrightarrow> compilable gf f) \<longrightarrow>
        (\<exists>compiled. build_query_filter gf OR_SEPARATOR mf = Inr compiled
           \<and> (matches h compiled \<longleftrightarrow>
                (\<forall>g\<in>set ?groups. g = [])
                \<or> (\<exists>g\<in>set ?groups. g \<noteq> [] \<and> (\<forall>f\<in>set g. matches h (?c f)))))"
      using semantics by blast
  qed
qed

theorem build_query_filter_total_on_compilable_witness:
  "\<exists>compiled. build_query_filter example_fields ''__or__''
     (example_filter
       [example_clause ''__or__'' ''exact'' [] False,
        example_clause ''name'' ''isnull'' ''junk'' False,
        example_clause ''__or__'' ''exact'' [] False,
        example_clause ''__or__'' ''exact'' [] False,
        example_clause ''age'' ''lt'' ''65'' True,
        example_clause ''__or__'' ''exact'' [] False]) = Inr compiled"
proof -
  let ?mf = "example_filter
       [example_clause ''__or__'' ''exact'' [] False,
        example_clause ''name'' ''isnull'' ''junk'' False,
        example_clause ''__or__'' ''exact'' [] False,
        example_clause ''__or__'' ''exact'' [] False,
        example_clause ''age'' ''lt'' ''65'' True,
        example_clause ''__or__'' ''exact'' [] False]"
  have ok: "\<forall>f\<in>set (mf_fields ?mf). field f \<noteq> ''__or__'' \<longrightarrow> compilable example_fields f"
    by (simp add: example_filter_def example_clause_def compilable_def
        no_value_operator_def example_fields_def IntegerField_to_python_def
        IS_NULL_def IS_EMPTY_def IS_TRUE_def IS_FALSE_def)
  show ?thesis
    using build_query_filter_total_on_compilable
      [of example_fields "''__or__''" ?mf, THEN conjunct1, THEN iffD2, OF ok] .
qed

section \<open>Owner and ephemeral flag on save\<close>

text \<open>
  Claim C9. Whether the form creates or changes a filter, \<open>save_form\<close> sets the
  ephemeral flag to whether the key of "save, apply and discard" is in the POST body,
  whatever the flag was; so an ordinary save of an ephemeral filter leaves it not
  ephemeral.
\<close>

theorem save_form_ephemeral:
  "(ephemeral (save_form FORM_SAVE_APPLY_DISCARD rq form change) \<longleftrightarrow>
      FORM_SAVE_APPLY_DISCARD \<in> dom (POST rq))
   \<and> (ephemeral (form_instance form) \<and> FORM_SAVE_APPLY_DISCARD \<notin> dom (POST rq) \<longrightarrow>
        \<not> ephemeral (save_form FORM_SAVE_APPLY_DISCARD rq form change))"
  by (simp add: save_form_def)

theorem save_form_ephemeral_witness:
  "ephemeral (form_instance customer_filter_form)
   \<and> \<not> ephemeral (save_form ''_saveapplydiscard'' root_save_request customer_filter_form True)
   \<and> ephemeral (save_form ''_save'' root_save_request customer_filter_form False)"
  using save_form_ephemeral [of "''_saveapplydiscard''" root_save_request
      customer_filter_form True]
    save_form_ephemeral [of "''_save''" root_save_request customer_filter_form False]
  by (simp add: root_save_request_def customer_filter_form_def customer_filter_def)

text \<open>
  Claim C5 fails on the code. The form pins content type and owner of a stored filter,
  and \<open>save_form\<close> then overwrites the owner with the user of the request: the
  superuser \<open>root\<close>, who may change the filter of \<open>wile\<close>, becomes its owner by saving
  it. The content type stays.
\<close>

theorem save_form_owner_failing_input:
  "pinned customer_filter customer_filter_form
   \<and> has_permission Change default_settings customer_perms grant_all root
       (Some customer_filter)
   \<and> owner customer_filter = wile
   \<and> owner (save_form ''_saveapplydiscard'' root_save_request customer_filter_form True)
       = root
   \<and> \<not> same_user
         (owner (save_form ''_saveapplydiscard'' root_save_request customer_filter_form True))
         (owner customer_filter)
   \<and> same_content_type
        (content_type
          (save_form ''_saveapplydiscard'' root_save_request customer_filter_form True))
        (content_type customer_filter)"
  by (simp add: pinned_def save_form_def form_save_def customer_filter_form_def
      customer_filter_def root_save_request_def same_user_def same_content_type_def
      wile_def root_def has_change_permission_def user_has_permission_def)

end
